theory Spec2Isabelle
  imports Complex_Main
begin

section \<open>Python values used by \<open>src/timepiece.py\<close>\<close>

text \<open>
  Time stamps and intervals are Python floats read from \<open>time.perf_counter()\<close>. They are
  modelled as real numbers: every finite float is a real, and the rounding of float
  arithmetic is not modelled. The clock is an input: every operation that reads the clock
  takes the reading \<open>now\<close> as an argument.
\<close>

datatype py_error = ValueError | TypeError | ZeroDivisionError | OverflowError

subsection \<open>\<open>collections.deque(maxlen=n)\<close>\<close>

text \<open>
  The bounded deque of the standard library, for an integer \<open>maxlen\<close>. The constructor
  converts \<open>maxlen\<close> to a C \<open>ssize_t\<close> (64 bits), raising \<open>OverflowError\<close> when it does not
  fit; it then raises \<open>ValueError\<close> for a negative \<open>maxlen\<close> and accepts every other value,
  zero included. \<open>append\<close> adds on the right and, when the deque is then longer than
  \<open>maxlen\<close>, removes one element on the left.
\<close>

definition PY_SSIZE_T_MAX :: int where
  "PY_SSIZE_T_MAX = 2 ^ 63 - 1"

record deque =
  maxlen :: int
  items :: "real list"

definition deque_init :: "int \<Rightarrow> py_error + deque" where
  "deque_init n =
     (if n < - PY_SSIZE_T_MAX - 1 \<or> PY_SSIZE_T_MAX < n then Inl OverflowError
      else if n < 0 then Inl ValueError
      else Inr \<lparr>maxlen = n, items = []\<rparr>)"

definition deque_append :: "deque \<Rightarrow> real \<Rightarrow> deque" where
  "deque_append d x =
     (let d1 = d\<lparr>items := items d @ [x]\<rparr>
      in if maxlen d1 < int (length (items d1)) then d1\<lparr>items := tl (items d1)\<rparr> else d1)"

subsection \<open>Builtins: \<open>min\<close>, \<open>max\<close>, \<open>sum\<close>, true division\<close>

text \<open>\<open>min\<close> and \<open>max\<close> of an empty sequence raise \<open>ValueError\<close>; otherwise they scan
  from the left and keep the first extremal element.\<close>

fun py_min :: "real list \<Rightarrow> py_error + real" where
  "py_min [] = Inl ValueError"
| "py_min (x # xs) = Inr (fold (\<lambda>y m. if y < m then y else m) xs x)"

fun py_max :: "real list \<Rightarrow> py_error + real" where
  "py_max [] = Inl ValueError"
| "py_max (x # xs) = Inr (fold (\<lambda>y m. if m < y then y else m) xs x)"

definition py_truediv :: "real \<Rightarrow> real \<Rightarrow> py_error + real" where
  "py_truediv a b = (if b = 0 then Inl ZeroDivisionError else Inr (a / b))"

section \<open>\<open>BaseClock\<close>\<close>

record BaseClock =
  intervals :: deque

definition MAX_REPR_INTERVALS :: nat where
  "MAX_REPR_INTERVALS = 5"

text \<open>\<open>BaseClock.__init__(self, max_intervals)\<close>; the default of the parameter is 10.\<close>

definition BaseClock_init :: "int \<Rightarrow> py_error + BaseClock" where
  "BaseClock_init max_intervals =
     (case deque_init max_intervals of
        Inl e \<Rightarrow> Inl e
      | Inr d \<Rightarrow> Inr \<lparr>intervals = d\<rparr>)"

text \<open>The statement \<open>self.intervals.append(v)\<close>, as \<open>tick\<close> and \<open>__exit__\<close> execute it.\<close>

definition intervals_append :: "real \<Rightarrow> 'a BaseClock_scheme \<Rightarrow> 'a BaseClock_scheme" where
  "intervals_append v self = self\<lparr>intervals := deque_append (intervals self) v\<rparr>"

definition min_clock :: "'a BaseClock_scheme \<Rightarrow> py_error + real" where
  "min_clock self =
     (if 0 < length (items (intervals self)) then py_min (items (intervals self)) else Inr 0)"

definition max_clock :: "'a BaseClock_scheme \<Rightarrow> py_error + real" where
  "max_clock self =
     (if 0 < length (items (intervals self)) then py_max (items (intervals self)) else Inr 0)"

definition mean :: "'a BaseClock_scheme \<Rightarrow> py_error + real" where
  "mean self =
     (if 0 < length (items (intervals self))
      then py_truediv (sum_list (items (intervals self))) (real (length (items (intervals self))))
      else Inr 0)"

definition freq :: "'a BaseClock_scheme \<Rightarrow> py_error + real" where
  "freq self =
     (case mean self of
        Inl e \<Rightarrow> Inl e
      | Inr m \<Rightarrow> if 0 < m then py_truediv 1 m else Inr 0)"

subsection \<open>Rendering of the statistics\<close>

text \<open>\<open>sep.join(xs)\<close> on a list of strings.\<close>

fun join :: "string \<Rightarrow> string list \<Rightarrow> string" where
  "join sep [] = []"
| "join sep [x] = x"
| "join sep (x # y # ys) = x @ sep @ join sep (y # ys)"

text \<open>
  The format specification \<open>.4f\<close> on a finite value: an optional minus sign, the decimal
  digits of the integral part, a point, and four digits, the value being rounded to the
  nearest multiple of \<open>0.0001\<close> with ties to the even one.
\<close>

definition digit_char :: "nat \<Rightarrow> char" where
  "digit_char d = ''0123456789'' ! d"

fun digits :: "nat \<Rightarrow> string" where
  "digits n = (if n < 10 then [digit_char n] else digits (n div 10) @ [digit_char (n mod 10)])"

declare digits.simps [simp del]

definition round_half_even :: "real \<Rightarrow> int" where
  "round_half_even x =
     (let f = \<lfloor>x\<rfloor>; d = x - of_int f
      in if d < 1 / 2 then f else if 1 / 2 < d then f + 1 else if even f then f else f + 1)"

definition fmt4 :: "real \<Rightarrow> string" where
  "fmt4 x =
     (let n = nat (round_half_even (\<bar>x\<bar> * 10000))
      in (if x < 0 then ''-'' else []) @ digits (n div 10000) @ ''.'' @
         [digit_char (n div 1000 mod 10), digit_char (n div 100 mod 10),
          digit_char (n div 10 mod 10), digit_char (n mod 10)])"

text \<open>\<open>BaseClock._repr_props\<close>: the list of the strings the generator yields.\<close>

definition BaseClock_repr_props :: "'a BaseClock_scheme \<Rightarrow> py_error + string list" where
  "BaseClock_repr_props self =
     (if items (intervals self) \<noteq> [] then
        (let iv_list = map fmt4 (take MAX_REPR_INTERVALS (items (intervals self)));
             iv_list = (if MAX_REPR_INTERVALS < length (items (intervals self))
                        then iv_list @ [''...''] else iv_list)
         in case min_clock self of Inl e \<Rightarrow> Inl e | Inr mn \<Rightarrow>
           (case mean self of Inl e \<Rightarrow> Inl e | Inr me \<Rightarrow>
             (case max_clock self of Inl e \<Rightarrow> Inl e | Inr mx \<Rightarrow>
                Inr [''intervals=['' @ join '', '' iv_list @ '']'',
                     ''min='' @ fmt4 mn, ''mean='' @ fmt4 me, ''max='' @ fmt4 mx])))
      else Inr [])"

text \<open>\<open>BaseClock.__repr__\<close>, for an object of the class named \<open>cls\<close>.\<close>

definition BaseClock_repr :: "string \<Rightarrow> 'a BaseClock_scheme \<Rightarrow> py_error + string" where
  "BaseClock_repr cls self =
     (case BaseClock_repr_props self of
        Inl e \<Rightarrow> Inl e
      | Inr props \<Rightarrow> Inr (''<'' @ join '' '' (cls # props) @ ''>''))"

section \<open>\<open>Ticker\<close>\<close>

record Ticker = BaseClock +
  last_tick :: "real option"

definition Ticker_init :: "int \<Rightarrow> py_error + Ticker" where
  "Ticker_init max_intervals =
     (case BaseClock_init max_intervals of
        Inl e \<Rightarrow> Inl e
      | Inr b \<Rightarrow> Inr \<lparr>intervals = intervals b, last_tick = None\<rparr>)"

definition tick :: "real \<Rightarrow> Ticker \<Rightarrow> Ticker" where
  "tick now self =
     (let self1 = (case last_tick self of
                     Some l \<Rightarrow> intervals_append (now - l) self
                   | None \<Rightarrow> self)
      in self1\<lparr>last_tick := Some now\<rparr>)"

text \<open>The differences of successive clock readings.\<close>

fun tick_diffs :: "real list \<Rightarrow> real list" where
  "tick_diffs (a # b # ts) = (b - a) # tick_diffs (b # ts)"
| "tick_diffs ts = []"

section \<open>\<open>StopWatch\<close>\<close>

text \<open>
  StopWatch objects refer to each other (\<open>parent\<close>, \<open>children\<close>), so they live in a heap:
  a list of objects, an object's address being its index; a new object is allocated at
  the end. \<open>children\<close> is a Python dict, which keeps its keys in insertion order: an
  association list with distinct keys.
\<close>

type_synonym addr = nat

record StopWatch = BaseClock +
  name :: string
  parent :: "addr option"
  children :: "(string \<times> addr) list"
  start :: "real option"

type_synonym heap = "StopWatch list"

definition StopWatch_init :: "string \<Rightarrow> int \<Rightarrow> py_error + StopWatch" where
  "StopWatch_init nm max_intervals =
     (case BaseClock_init max_intervals of
        Inl e \<Rightarrow> Inl e
      | Inr b \<Rightarrow> Inr \<lparr>intervals = intervals b, name = nm, parent = None,
                       children = [], start = None\<rparr>)"

text \<open>The expression \<open>StopWatch(name, max_intervals)\<close>: the new object and its address.\<close>

definition new_StopWatch :: "string \<Rightarrow> int \<Rightarrow> heap \<Rightarrow> py_error + addr \<times> heap" where
  "new_StopWatch nm max_intervals h =
     (case StopWatch_init nm max_intervals of
        Inl e \<Rightarrow> Inl e
      | Inr sw \<Rightarrow> Inr (length h, h @ [sw]))"

text \<open>\<open>StopWatch.child(self, name, max_intervals=None)\<close>.\<close>

definition child :: "addr \<Rightarrow> string \<Rightarrow> int option \<Rightarrow> heap \<Rightarrow> py_error + addr \<times> heap" where
  "child self nm max_intervals h =
     (case map_of (children (h ! self)) nm of
        Some c \<Rightarrow> Inr (c, h)
      | None \<Rightarrow>
          (let mi = (case max_intervals of
                       None \<Rightarrow> maxlen (intervals (h ! self))
                     | Some m \<Rightarrow> m)
           in case new_StopWatch nm mi h of
                Inl e \<Rightarrow> Inl e
              | Inr (c, h1) \<Rightarrow>
                  (let h2 = h1[c := (h1 ! c)\<lparr>parent := Some self\<rparr>];
                       h3 = h2[self := (h2 ! self)\<lparr>children := children (h2 ! self) @ [(nm, c)]\<rparr>]
                   in Inr (c, h3))))"

text \<open>
  \<open>StopWatch.parents\<close>: the loop follows the parent links until it finds \<open>None\<close>, and
  does not end on a cyclic chain. The first argument bounds the number of iterations;
  \<open>None\<close> is the loop not having ended within the bound.
\<close>

fun parents :: "nat \<Rightarrow> heap \<Rightarrow> addr \<Rightarrow> addr list option" where
  "parents 0 h current = None"
| "parents (Suc n) h current =
     (case parent (h ! current) of
        None \<Rightarrow> Some []
      | Some p \<Rightarrow> (case parents n h p of None \<Rightarrow> None | Some ps \<Rightarrow> Some (p # ps)))"

definition full_name :: "nat \<Rightarrow> heap \<Rightarrow> addr \<Rightarrow> string option" where
  "full_name n h self =
     (case parents n h self of
        None \<Rightarrow> None
      | Some ps \<Rightarrow>
          (let family = [name (h ! self)] @ map (\<lambda>p. name (h ! p)) ps
           in Some (join ''.'' (rev family))))"

definition level :: "nat \<Rightarrow> heap \<Rightarrow> addr \<Rightarrow> nat option" where
  "level n h self =
     (case parents n h self of None \<Rightarrow> None | Some ps \<Rightarrow> Some (length ps))"

text \<open>\<open>StopWatch.__enter__\<close> and \<open>StopWatch.__exit__\<close>, on the object itself; in
  \<open>__exit__\<close> the subtraction of \<open>None\<close> from a float raises \<open>TypeError\<close>.\<close>

definition py_sub :: "real \<Rightarrow> real option \<Rightarrow> py_error + real" where
  "py_sub a b = (case b of None \<Rightarrow> Inl TypeError | Some y \<Rightarrow> Inr (a - y))"

definition enter :: "real \<Rightarrow> StopWatch \<Rightarrow> StopWatch" where
  "enter now self = self\<lparr>start := Some now\<rparr>"

definition exit :: "real \<Rightarrow> StopWatch \<Rightarrow> py_error + StopWatch" where
  "exit now self =
     (case py_sub now (start self) of
        Inl e \<Rightarrow> Inl e
      | Inr v \<Rightarrow> Inr ((intervals_append v self)\<lparr>start := None\<rparr>))"

text \<open>The two methods called on the object at address \<open>self\<close> of a heap. An exception of
  \<open>__exit__\<close> is raised while the argument of \<open>append\<close> is evaluated, before anything
  is changed.\<close>

definition enter_at :: "real \<Rightarrow> addr \<Rightarrow> heap \<Rightarrow> heap" where
  "enter_at now self h = h[self := enter now (h ! self)]"

definition exit_at :: "real \<Rightarrow> addr \<Rightarrow> heap \<Rightarrow> (py_error + unit) \<times> heap" where
  "exit_at now self h =
     (case exit now (h ! self) of
        Inl e \<Rightarrow> (Inl e, h)
      | Inr sw \<Rightarrow> (Inr (), h[self := sw]))"

text \<open>
  The statement \<open>with sw: body\<close> for the StopWatch at address \<open>self\<close>: \<open>__enter__\<close>,
  the body, then \<open>__exit__\<close> whether the body ended normally or raised. \<open>__exit__\<close>
  returns \<open>None\<close>, so an exception of the body is raised again after it; an exception of
  \<open>__exit__\<close> itself replaces the outcome of the body.
\<close>

definition with_StopWatch ::
  "real \<Rightarrow> real \<Rightarrow> addr \<Rightarrow> (heap \<Rightarrow> (py_error + unit) \<times> heap) \<Rightarrow> heap
     \<Rightarrow> (py_error + unit) \<times> heap" where
  "with_StopWatch t_enter t_exit self body h =
     (let h1 = enter_at t_enter self h;
          (r, h2) = body h1;
          (x, h3) = exit_at t_exit self h2
      in case x of
           Inl e \<Rightarrow> (Inl e, h3)
         | Inr u \<Rightarrow> (r, h3))"

text \<open>A sequence of brackets on one StopWatch, each with its two clock readings.\<close>

fun enter_exit_all :: "(real \<times> real) list \<Rightarrow> StopWatch \<Rightarrow> py_error + StopWatch" where
  "enter_exit_all [] self = Inr self"
| "enter_exit_all ((t0, t1) # ts) self =
     (case exit t1 (enter t0 self) of
        Inl e \<Rightarrow> Inl e
      | Inr self1 \<Rightarrow> enter_exit_all ts self1)"

subsection \<open>Rendering of the tree\<close>

definition StopWatch_repr_props :: "StopWatch \<Rightarrow> py_error + string list" where
  "StopWatch_repr_props self =
     (case BaseClock_repr_props self of
        Inl e \<Rightarrow> Inl e
      | Inr props \<Rightarrow> Inr ((''name='' @ name self) # props))"

text \<open>The results of the calls \<open>repr(c)\<close> of a generator expression, in order: the first
  call that does not return or that raises decides.\<close>

fun collect :: "(py_error + 'a) option list \<Rightarrow> (py_error + 'a list) option" where
  "collect [] = Some (Inr [])"
| "collect (None # rs) = None"
| "collect (Some (Inl e) # rs) = Some (Inl e)"
| "collect (Some (Inr x) # rs) =
     (case collect rs of
        None \<Rightarrow> None
      | Some (Inl e) \<Rightarrow> Some (Inl e)
      | Some (Inr xs) \<Rightarrow> Some (Inr (x # xs)))"

text \<open>
  \<open>StopWatch.__repr__\<close>. The recursion over the children does not end on a cyclic heap:
  the first argument bounds its depth and the iterations of \<open>parents\<close>, and \<open>None\<close> is the
  call not having returned within the bound.
\<close>

fun StopWatch_repr :: "nat \<Rightarrow> heap \<Rightarrow> addr \<Rightarrow> (py_error + string) option" where
  "StopWatch_repr 0 h self = None"
| "StopWatch_repr (Suc n) h self =
     (case level (Suc n) h self of
        None \<Rightarrow> None
      | Some lvl \<Rightarrow>
          (let indent = concat (replicate lvl ''    '');
               nl = [CHR 0x0A]
           in case StopWatch_repr_props (h ! self) of
                Inl e \<Rightarrow> Some (Inl e)
              | Inr props \<Rightarrow>
                  (case (if children (h ! self) \<noteq> []
                         then (case collect (map (StopWatch_repr n h)
                                              (map snd (children (h ! self)))) of
                                 None \<Rightarrow> None
                               | Some (Inl e) \<Rightarrow> Some (Inl e)
                               | Some (Inr rs) \<Rightarrow>
                                   Some (Inr (props @
                                     [''children=['' @ join '', '' rs @ nl @ indent @ '']''])))
                         else Some (Inr props)) of
                     None \<Rightarrow> None
                   | Some (Inl e) \<Rightarrow> Some (Inl e)
                   | Some (Inr props1) \<Rightarrow>
                       Some (Inr ((if 0 < lvl then nl else []) @ indent @
                                  ''<'' @ ''StopWatch'' @ '' '' @ join '' '' props1 @ ''>'')))))"

section \<open>Well-formed heaps\<close>

text \<open>
  The heaps the operations above build: every history is within its capacity, the keys
  of every \<open>children\<close> dict are distinct, every child is an allocated object created after
  its parent, whose \<open>parent\<close> is the object holding it and whose name is its key, and
  every \<open>parent\<close> link points to an earlier object that holds the object as a child.
\<close>

definition wf_heap :: "heap \<Rightarrow> bool" where
  "wf_heap h =
     (\<forall>a < length h.
        int (length (items (intervals (h ! a)))) \<le> maxlen (intervals (h ! a)) \<and>
        distinct (map fst (children (h ! a))) \<and>
        (\<forall>(k, c) \<in> set (children (h ! a)).
           a < c \<and> c < length h \<and> parent (h ! c) = Some a \<and> name (h ! c) = k) \<and>
        (\<forall>p. parent (h ! a) = Some p \<longrightarrow>
           p < a \<and> map_of (children (h ! p)) (name (h ! a)) = Some a))"

text \<open>The heap \<open>child\<close> leaves when it creates a child of capacity \<open>mi\<close>, written out
  (lemma \<open>child_new\<close> relates it to \<open>child\<close>).\<close>

definition child_heap :: "addr \<Rightarrow> string \<Rightarrow> int \<Rightarrow> heap \<Rightarrow> heap" where
  "child_heap self nm mi h =
     h[self := (h ! self)\<lparr>children := children (h ! self) @ [(nm, length h)]\<rparr>] @
     [\<lparr>intervals = \<lparr>maxlen = mi, items = []\<rparr>, name = nm, parent = Some self,
       children = [], start = None\<rparr>]"

text \<open>What the claim about \<open>parents\<close> says of its result: \<open>ps\<close> starts with the parent of
  \<open>a\<close>, each further element is the parent of the one before, and the last has none.\<close>

fun ancestor_chain :: "heap \<Rightarrow> addr \<Rightarrow> addr list \<Rightarrow> bool" where
  "ancestor_chain h a [] = (parent (h ! a) = None)"
| "ancestor_chain h a (p # ps) = (parent (h ! a) = Some p \<and> ancestor_chain h p ps)"

text \<open>The last \<open>n\<close> elements of a list, in their order.\<close>

definition last_n :: "nat \<Rightarrow> 'a list \<Rightarrow> 'a list" where
  "last_n n xs = drop (length xs - n) xs"

section \<open>The bounded history\<close>

lemma last_n_append_last_n: "last_n n (last_n n ys @ xs) = last_n n (ys @ xs)"
proof (cases "n \<le> length ys")
  case True
  then have "length xs + (length ys - n) = length ys + length xs - n" by arith
  with True show ?thesis by (simp add: last_n_def)
next
  case False
  then show ?thesis by (simp add: last_n_def)
qed

lemma length_last_n: "length (last_n n xs) = min n (length xs)"
  by (auto simp: last_n_def)

lemma maxlen_deque_append: "maxlen (deque_append d x) = maxlen d"
  by (simp add: deque_append_def Let_def)

lemma items_deque_append:
  assumes "int (length (items d)) \<le> maxlen d"
  shows "items (deque_append d x) = last_n (nat (maxlen d)) (items d @ [x])"
proof (cases "int (length (items d)) = maxlen d")
  case True
  then have n: "nat (maxlen d) = length (items d)" by simp
  show ?thesis
  proof (cases "items d")
    case Nil
    with True show ?thesis by (simp add: deque_append_def Let_def last_n_def)
  next
    case (Cons y ys)
    with True n show ?thesis by (auto simp: deque_append_def Let_def last_n_def)
  qed
next
  case False
  with assms have "length (items d) < nat (maxlen d)" by linarith
  then have "\<not> maxlen d < 1 + int (length (items d))" by linarith
  with assms show ?thesis by (simp add: deque_append_def Let_def last_n_def)
qed

lemma length_deque_append:
  assumes "int (length (items d)) \<le> maxlen d"
  shows "int (length (items (deque_append d x))) \<le> maxlen d"
  using assms by (auto simp: deque_append_def Let_def)

lemma intervals_fold_append:
  "int (length (items (intervals h))) \<le> maxlen (intervals h) \<Longrightarrow>
   maxlen (intervals (fold intervals_append xs h)) = maxlen (intervals h) \<and>
   items (intervals (fold intervals_append xs h)) =
     last_n (nat (maxlen (intervals h))) (items (intervals h) @ xs)"
proof (induction xs arbitrary: h)
  case Nil
  then show ?case by (simp add: last_n_def)
next
  case (Cons x xs)
  let ?h1 = "intervals_append x h"
  have m: "maxlen (intervals ?h1) = maxlen (intervals h)"
    by (simp add: intervals_append_def maxlen_deque_append)
  have l: "int (length (items (intervals ?h1))) \<le> maxlen (intervals ?h1)"
    using Cons.prems by (simp add: intervals_append_def maxlen_deque_append length_deque_append)
  have i: "items (intervals ?h1) = last_n (nat (maxlen (intervals h))) (items (intervals h) @ [x])"
    using Cons.prems by (simp add: intervals_append_def items_deque_append)
  from Cons.IH [OF l] m i show ?case
    by (simp add: last_n_append_last_n)
qed

lemma BaseClock_init_Inr:
  "0 \<le> C \<Longrightarrow> C \<le> PY_SSIZE_T_MAX \<Longrightarrow>
   BaseClock_init C = Inr \<lparr>intervals = \<lparr>maxlen = C, items = []\<rparr>\<rparr>"
  by (simp add: BaseClock_init_def deque_init_def PY_SSIZE_T_MAX_def)

lemma BaseClock_init_InrD:
  "BaseClock_init C = Inr h \<Longrightarrow>
   0 \<le> C \<and> C \<le> PY_SSIZE_T_MAX \<and> h = \<lparr>intervals = \<lparr>maxlen = C, items = []\<rparr>\<rparr>"
  by (auto simp: BaseClock_init_def deque_init_def split: if_splits)

lemma items_deque_append_full:
  "int (length (items d)) = maxlen d \<Longrightarrow> 0 < maxlen d \<Longrightarrow>
   items (deque_append d x) = tl (items d) @ [x]"
  by (cases "items d") (auto simp: deque_append_def Let_def)

text \<open>
  Claim C1. A history with a capacity \<open>C > 0\<close> exists for every \<open>C\<close> that the constructor
  accepts. A history created with a capacity \<open>C > 0\<close> and then appended the values
  \<open>xs\<close> holds the last \<open>min (length xs) C\<close> of them, in their order; it never holds
  more than \<open>C\<close> values; and appending to it when it holds \<open>C\<close> values removes the
  oldest one and nothing else.
\<close>

theorem C1_bounded_fifo_history:
  assumes "0 < C"
  shows "(C \<le> PY_SSIZE_T_MAX \<longrightarrow> (\<exists>h. BaseClock_init C = Inr h)) \<and>
         (\<forall>h. BaseClock_init C = Inr h \<longrightarrow>
            items (intervals h) = [] \<and>
            items (intervals (fold intervals_append xs h)) =
              drop (length xs - min (length xs) (nat C)) xs \<and>
            int (length (items (intervals (fold intervals_append xs h)))) \<le> C \<and>
            (\<forall>x. int (length (items (intervals (fold intervals_append xs h)))) = C \<longrightarrow>
               items (deque_append (intervals (fold intervals_append xs h)) x) =
                 tl (items (intervals (fold intervals_append xs h))) @ [x]))"
proof -
  let ?h = "\<lparr>intervals = \<lparr>maxlen = C, items = []\<rparr>\<rparr>"
  have init: "C \<le> PY_SSIZE_T_MAX \<longrightarrow> (\<exists>h. BaseClock_init C = Inr h)"
    using assms by (simp add: BaseClock_init_Inr)
  have le: "int (length (items (intervals ?h))) \<le> maxlen (intervals ?h)"
    using assms by simp
  note f = intervals_fold_append [OF le, of xs]
  have it: "items (intervals (fold intervals_append xs ?h)) = last_n (nat C) xs"
    using f by simp
  have ml: "maxlen (intervals (fold intervals_append xs ?h)) = C"
    using f by simp
  have drop: "last_n (nat C) xs = drop (length xs - min (length xs) (nat C)) xs"
    by (simp add: last_n_def min_def)
  have len: "int (length (items (intervals (fold intervals_append xs ?h)))) \<le> C"
    using assms by (simp add: it length_last_n)
  have evict: "\<forall>x. int (length (items (intervals (fold intervals_append xs ?h)))) = C \<longrightarrow>
              items (deque_append (intervals (fold intervals_append xs ?h)) x) =
                tl (items (intervals (fold intervals_append xs ?h))) @ [x]"
    using assms ml by (simp add: items_deque_append_full)
  have props: "items (intervals h) = [] \<and>
            items (intervals (fold intervals_append xs h)) =
              drop (length xs - min (length xs) (nat C)) xs \<and>
            int (length (items (intervals (fold intervals_append xs h)))) \<le> C \<and>
            (\<forall>x. int (length (items (intervals (fold intervals_append xs h)))) = C \<longrightarrow>
               items (deque_append (intervals (fold intervals_append xs h)) x) =
                 tl (items (intervals (fold intervals_append xs h))) @ [x])"
    if "BaseClock_init C = Inr h" for h
  proof -
    from BaseClock_init_InrD [OF that] have h: "h = ?h" by simp
    from it drop len evict show ?thesis unfolding h by simp
  qed
  from init props show ?thesis by blast
qed

theorem C1_bounded_fifo_history_witness:
  "(0::int) < 2 \<and> (2::int) \<le> PY_SSIZE_T_MAX \<and>
   (\<exists>h. BaseClock_init 2 = Inr h \<and> items (intervals h) = [] \<and>
      items (intervals (fold intervals_append [1, 2, 3] h)) = [2, 3] \<and>
      int (length (items (intervals (fold intervals_append [1, 2, 3] h)))) \<le> 2 \<and>
      items (deque_append (intervals (fold intervals_append [1, 2, 3] h)) 4) = [3, 4])"
proof -
  have pos: "(0::int) < 2" by simp
  have fits: "(2::int) \<le> PY_SSIZE_T_MAX" by (simp add: PY_SSIZE_T_MAX_def)
  note inst = C1_bounded_fifo_history [OF pos, of "[1, 2, 3]"]
  from inst fits obtain h where init: "BaseClock_init 2 = Inr h" by blast
  with inst have h: "items (intervals h) = []"
    "items (intervals (fold intervals_append [1, 2, 3] h)) =
             drop (length [1, 2, 3::real] - min (length [1, 2, 3::real]) (nat 2)) [1, 2, 3]"
    "int (length (items (intervals (fold intervals_append [1, 2, 3] h)))) \<le> 2"
    "\<forall>x. int (length (items (intervals (fold intervals_append [1, 2, 3] h)))) = 2 \<longrightarrow>
              items (deque_append (intervals (fold intervals_append [1, 2, 3] h)) x) =
                tl (items (intervals (fold intervals_append [1, 2, 3] h))) @ [x]"
    by blast+
  from h(2) have i: "items (intervals (fold intervals_append [1, 2, 3] h)) = [2, 3]" by simp
  with h(4) have "items (deque_append (intervals (fold intervals_append [1, 2, 3] h)) 4) = [3, 4]"
    by simp
  with pos fits init h(1,3) i show ?thesis by blast
qed

section \<open>Construction\<close>

text \<open>
  Claim C5, as stated: every capacity \<open>\<le> 0\<close> makes the three constructors fail, and
  every positive capacity makes them succeed. It does not hold at capacity 0, where
  \<open>deque(maxlen=0)\<close> is accepted and all three succeed, nor at capacity \<open>2 ^ 63\<close>, which
  does not fit a \<open>ssize_t\<close> and makes all three raise \<open>OverflowError\<close>.
\<close>

theorem C5_zero_capacity_counterexample:
  "(0::int) \<le> 0 \<and>
   BaseClock_init 0 = Inr \<lparr>intervals = \<lparr>maxlen = 0, items = []\<rparr>\<rparr> \<and>
   Ticker_init 0 = Inr \<lparr>intervals = \<lparr>maxlen = 0, items = []\<rparr>, last_tick = None\<rparr> \<and>
   StopWatch_init ''root'' 0 =
     Inr \<lparr>intervals = \<lparr>maxlen = 0, items = []\<rparr>, name = ''root'', parent = None,
          children = [], start = None\<rparr> \<and>
   (0::int) < 2 ^ 63 \<and>
   BaseClock_init (2 ^ 63) = Inl OverflowError \<and>
   Ticker_init (2 ^ 63) = Inl OverflowError \<and>
   StopWatch_init ''root'' (2 ^ 63) = Inl OverflowError"
  by (simp add: BaseClock_init_def Ticker_init_def StopWatch_init_def deque_init_def
      PY_SSIZE_T_MAX_def)

text \<open>
  Claim C5, amended. Construction fails for every negative capacity, with \<open>ValueError\<close>
  down to \<open>- 2 ^ 63\<close> and with \<open>OverflowError\<close> below; it fails with \<open>OverflowError\<close> for
  every capacity of \<open>2 ^ 63\<close> or more; for every capacity from 0 to \<open>2 ^ 63 - 1\<close> the three
  constructors succeed and give an object with that capacity and an empty history.
\<close>

theorem C5_construction:
  "(c < - PY_SSIZE_T_MAX - 1 \<or> PY_SSIZE_T_MAX < c \<longrightarrow>
      BaseClock_init c = Inl OverflowError \<and> Ticker_init c = Inl OverflowError \<and>
      StopWatch_init nm c = Inl OverflowError) \<and>
   (- PY_SSIZE_T_MAX - 1 \<le> c \<and> c < 0 \<longrightarrow>
      BaseClock_init c = Inl ValueError \<and> Ticker_init c = Inl ValueError \<and>
      StopWatch_init nm c = Inl ValueError) \<and>
   (0 \<le> c \<and> c \<le> PY_SSIZE_T_MAX \<longrightarrow>
      BaseClock_init c = Inr \<lparr>intervals = \<lparr>maxlen = c, items = []\<rparr>\<rparr> \<and>
      Ticker_init c = Inr \<lparr>intervals = \<lparr>maxlen = c, items = []\<rparr>, last_tick = None\<rparr> \<and>
      StopWatch_init nm c =
        Inr \<lparr>intervals = \<lparr>maxlen = c, items = []\<rparr>, name = nm, parent = None,
             children = [], start = None\<rparr>) \<and>
   PY_SSIZE_T_MAX = 2 ^ 63 - 1"
  by (auto simp: BaseClock_init_def Ticker_init_def StopWatch_init_def deque_init_def
      PY_SSIZE_T_MAX_def)

theorem C5_construction_witness:
  "(-1::int) < 0 \<and> BaseClock_init (-1) = Inl ValueError \<and> Ticker_init (-1) = Inl ValueError \<and>
   StopWatch_init ''root'' (-1) = Inl ValueError \<and>
   (0::int) \<le> 10 \<and> (10::int) \<le> PY_SSIZE_T_MAX \<and>
   BaseClock_init 10 = Inr \<lparr>intervals = \<lparr>maxlen = 10, items = []\<rparr>\<rparr> \<and>
   Ticker_init 10 = Inr \<lparr>intervals = \<lparr>maxlen = 10, items = []\<rparr>, last_tick = None\<rparr> \<and>
   StopWatch_init ''root'' 10 =
     Inr \<lparr>intervals = \<lparr>maxlen = 10, items = []\<rparr>, name = ''root'', parent = None,
          children = [], start = None\<rparr> \<and>
   PY_SSIZE_T_MAX < 2 ^ 63 \<and>
   BaseClock_init (2 ^ 63) = Inl OverflowError \<and> Ticker_init (2 ^ 63) = Inl OverflowError \<and>
   StopWatch_init ''root'' (2 ^ 63) = Inl OverflowError \<and>
   BaseClock_init (- (2 ^ 63) - 1) = Inl OverflowError"
  using C5_construction [of "-1" "''root''"] C5_construction [of 10 "''root''"]
    C5_construction [of "2 ^ 63" "''root''"] C5_construction [of "- (2 ^ 63) - 1" "''root''"]
  by (simp add: PY_SSIZE_T_MAX_def)

section \<open>Statistics\<close>

lemma min_clock_Inr: "\<exists>m. min_clock self = Inr m"
  by (cases "items (intervals self)") (simp_all add: min_clock_def)

lemma max_clock_Inr: "\<exists>m. max_clock self = Inr m"
  by (cases "items (intervals self)") (simp_all add: max_clock_def)

lemma mean_Inr: "\<exists>m. mean self = Inr m"
  by (simp add: mean_def py_truediv_def)

text \<open>
  Claim C6. On a history without samples \<open>min\<close>, \<open>max\<close>, \<open>mean\<close> and \<open>freq\<close> return
  0.0. On every history the four queries return a value (none raises), and \<open>freq\<close>
  returns \<open>1 / mean\<close> when the mean is positive and 0.0 otherwise. The queries are
  functions of the object that return a number only: the samples are not changed.
\<close>

theorem C6_vacuous_statistics:
  "(items (intervals self) = [] \<longrightarrow>
      min_clock self = Inr 0 \<and> max_clock self = Inr 0 \<and> mean self = Inr 0 \<and>
      freq self = Inr 0) \<and>
   (\<exists>mn mx me. min_clock self = Inr mn \<and> max_clock self = Inr mx \<and> mean self = Inr me \<and>
      freq self = Inr (if 0 < me then 1 / me else 0))"
proof -
  obtain me where me: "mean self = Inr me" using mean_Inr by blast
  have fr: "freq self = Inr (if 0 < me then 1 / me else 0)"
    by (simp add: freq_def me py_truediv_def)
  obtain mn where mn: "min_clock self = Inr mn"
    using min_clock_Inr by blast
  obtain mx where mx: "max_clock self = Inr mx"
    using max_clock_Inr by blast
  have empty: "items (intervals self) = [] \<longrightarrow>
      min_clock self = Inr 0 \<and> max_clock self = Inr 0 \<and> mean self = Inr 0 \<and>
      freq self = Inr 0"
    by (simp add: min_clock_def max_clock_def mean_def freq_def)
  from me fr mn mx empty show ?thesis by blast
qed

theorem C6_vacuous_statistics_witness:
  "items (intervals \<lparr>intervals = \<lparr>maxlen = 10, items = []\<rparr>\<rparr>) = [] \<and>
   min_clock \<lparr>intervals = \<lparr>maxlen = 10, items = []\<rparr>\<rparr> = Inr 0 \<and>
   max_clock \<lparr>intervals = \<lparr>maxlen = 10, items = []\<rparr>\<rparr> = Inr 0 \<and>
   mean \<lparr>intervals = \<lparr>maxlen = 10, items = []\<rparr>\<rparr> = Inr 0 \<and>
   freq \<lparr>intervals = \<lparr>maxlen = 10, items = []\<rparr>\<rparr> = Inr 0"
  using C6_vacuous_statistics [of "\<lparr>intervals = \<lparr>maxlen = 10, items = []\<rparr>\<rparr>"]
  by simp

section \<open>The Ticker\<close>

lemma length_tick_diffs: "length (tick_diffs ts) = length ts - 1"
  by (induction ts rule: tick_diffs.induct) simp_all

lemma tick_Some:
  "last_tick s = Some p \<Longrightarrow>
   intervals (tick now s) = deque_append (intervals s) (now - p) \<and>
   last_tick (tick now s) = Some now"
  by (simp add: tick_def intervals_append_def)

lemma tick_None:
  "last_tick s = None \<Longrightarrow> intervals (tick now s) = intervals s \<and> last_tick (tick now s) = Some now"
  by (simp add: tick_def)

lemma fold_tick_Some:
  "last_tick s = Some p \<Longrightarrow> int (length (items (intervals s))) \<le> maxlen (intervals s) \<Longrightarrow>
   maxlen (intervals (fold tick ts s)) = maxlen (intervals s) \<and>
   items (intervals (fold tick ts s)) =
     last_n (nat (maxlen (intervals s))) (items (intervals s) @ tick_diffs (p # ts)) \<and>
   last_tick (fold tick ts s) = Some (last (p # ts))"
proof (induction ts arbitrary: s p)
  case Nil
  then show ?case by (simp add: last_n_def)
next
  case (Cons x xs)
  let ?s1 = "tick x s"
  from tick_Some [OF Cons.prems(1), of x]
  have iv: "intervals ?s1 = deque_append (intervals s) (x - p)" and lt: "last_tick ?s1 = Some x"
    by simp_all
  have m: "maxlen (intervals ?s1) = maxlen (intervals s)"
    by (simp add: iv maxlen_deque_append)
  have l: "int (length (items (intervals ?s1))) \<le> maxlen (intervals ?s1)"
    using Cons.prems(2) by (simp add: iv maxlen_deque_append length_deque_append)
  have i: "items (intervals ?s1) = last_n (nat (maxlen (intervals s))) (items (intervals s) @ [x - p])"
    using Cons.prems(2) by (simp add: iv items_deque_append)
  from Cons.IH [OF lt l] m i show ?case
    by (simp add: last_n_append_last_n)
qed

text \<open>
  Claim C3. On a Ticker created with capacity \<open>C\<close>, after \<open>K \<ge> 1\<close> calls of \<open>tick\<close> (at
  the clock readings \<open>ts\<close>) the history holds \<open>min (K - 1) C\<close> samples: the last ones of
  the differences of successive readings. The first call records nothing and sets the
  baseline; a call with a baseline \<open>p\<close> appends exactly \<open>now - p\<close>.
\<close>

theorem C3_ticker_interval_count:
  assumes "Ticker_init C = Inr t" and "ts \<noteq> []"
  shows "length (items (intervals (fold tick ts t))) = min (length ts - 1) (nat C) \<and>
         items (intervals (fold tick ts t)) = last_n (nat C) (tick_diffs ts) \<and>
         intervals (tick now t) = intervals t \<and> last_tick (tick now t) = Some now \<and>
         (\<forall>s p. last_tick s = Some p \<longrightarrow>
            intervals (tick now s) = deque_append (intervals s) (now - p) \<and>
            last_tick (tick now s) = Some now)"
proof -
  from assms(1) have c: "0 \<le> C" and t: "t = \<lparr>intervals = \<lparr>maxlen = C, items = []\<rparr>, last_tick = None\<rparr>"
    by (auto simp: Ticker_init_def BaseClock_init_def deque_init_def PY_SSIZE_T_MAX_def split: if_splits)
  from assms(2) obtain x xs where ts: "ts = x # xs" by (cases ts) auto
  have first: "intervals (tick x t) = intervals t" "last_tick (tick x t) = Some x"
    using tick_None [of t x] t by simp_all
  have le: "int (length (items (intervals (tick x t)))) \<le> maxlen (intervals (tick x t))"
    using c t first by simp
  from fold_tick_Some [OF first(2) le, of xs]
  have it: "items (intervals (fold tick ts t)) = last_n (nat C) (tick_diffs ts)"
    using first t ts by simp
  have len: "length (items (intervals (fold tick ts t))) = min (length ts - 1) (nat C)"
    by (simp add: it length_last_n length_tick_diffs min.commute)
  have base: "intervals (tick now t) = intervals t \<and> last_tick (tick now t) = Some now"
    using tick_None [of t now] t by simp
  from it len base tick_Some show ?thesis by blast
qed

theorem C3_ticker_interval_count_witness:
  "Ticker_init 2 = Inr \<lparr>intervals = \<lparr>maxlen = 2, items = []\<rparr>, last_tick = None\<rparr> \<and>
   [1, 2, 4, 8 :: real] \<noteq> [] \<and>
   length (items (intervals (fold tick [1, 2, 4, 8]
     \<lparr>intervals = \<lparr>maxlen = 2, items = []\<rparr>, last_tick = None\<rparr>))) = 2 \<and>
   items (intervals (fold tick [1, 2, 4, 8]
     \<lparr>intervals = \<lparr>maxlen = 2, items = []\<rparr>, last_tick = None\<rparr>)) = [2, 4]"
proof -
  have i: "Ticker_init 2 = Inr \<lparr>intervals = \<lparr>maxlen = 2, items = []\<rparr>, last_tick = None\<rparr>"
    by (simp add: Ticker_init_def BaseClock_init_def deque_init_def PY_SSIZE_T_MAX_def)
  have n: "[1, 2, 4, 8 :: real] \<noteq> []" by simp
  from C3_ticker_interval_count [OF i n, of 0] i show ?thesis
    by (simp add: last_n_def)
qed

section \<open>The bracket of a StopWatch\<close>

lemma exit_enter:
  "exit t1 (enter t0 self) = Inr ((intervals_append (t1 - t0) self)\<lparr>start := None\<rparr>)"
  by (simp add: exit_def enter_def py_sub_def intervals_append_def)

text \<open>
  Claim C8. \<open>__enter__\<close> sets the start time and changes nothing else; \<open>__exit__\<close>
  after it returns, records the elapsed time and clears the start time. A second
  \<open>__enter__\<close> before the \<open>__exit__\<close> returns as well and leaves the object as if only the
  second had been called, so the \<open>__exit__\<close> records the time since the second entry.
\<close>

theorem C8_bracket_state_machine:
  "start (enter t0 self) = Some t0 \<and>
   intervals (enter t0 self) = intervals self \<and>
   (\<exists>s1. exit t1 (enter t0 self) = Inr s1 \<and> start s1 = None \<and>
      intervals s1 = deque_append (intervals self) (t1 - t0)) \<and>
   enter t0' (enter t0 self) = enter t0' self \<and>
   start (enter t0' (enter t0 self)) = Some t0' \<and>
   (\<exists>s2. exit t1 (enter t0' (enter t0 self)) = Inr s2 \<and> start s2 = None \<and>
      intervals s2 = deque_append (intervals self) (t1 - t0'))"
  by (simp add: exit_def enter_def py_sub_def intervals_append_def)

text \<open>
  Claim C10. \<open>__exit__\<close> on a StopWatch whose start time is absent raises \<open>TypeError\<close>
  and changes nothing: it neither returns nor records a sample. It returns exactly when
  a start time is present. The start time is absent on a new StopWatch and after a
  completed bracket.
\<close>

theorem C10_exit_without_enter:
  "(start self = None \<longrightarrow> exit now self = Inl TypeError) \<and>
   (start (h ! a) = None \<longrightarrow> exit_at now a h = (Inl TypeError, h)) \<and>
   ((\<exists>s1. exit now self = Inr s1) \<longleftrightarrow> start self \<noteq> None) \<and>
   (StopWatch_init nm c = Inr sw \<longrightarrow> exit now sw = Inl TypeError) \<and>
   (exit t1 (enter t0 self) = Inr s2 \<longrightarrow> exit now s2 = Inl TypeError)"
  by (auto simp: exit_def exit_at_def enter_def py_sub_def StopWatch_init_def
      split: option.splits sum.splits)

theorem C10_exit_without_enter_witness:
  "start \<lparr>intervals = \<lparr>maxlen = 10, items = []\<rparr>, name = ''root'', parent = None,
          children = [], start = None\<rparr> = None \<and>
   exit 5 \<lparr>intervals = \<lparr>maxlen = 10, items = []\<rparr>, name = ''root'', parent = None,
          children = [], start = None\<rparr> = Inl TypeError \<and>
   StopWatch_init ''root'' 10 = Inr \<lparr>intervals = \<lparr>maxlen = 10, items = []\<rparr>, name = ''root'',
          parent = None, children = [], start = None\<rparr> \<and>
   exit_at 5 0 [\<lparr>intervals = \<lparr>maxlen = 10, items = []\<rparr>, name = ''root'', parent = None,
          children = [], start = None\<rparr>] =
     (Inl TypeError, [\<lparr>intervals = \<lparr>maxlen = 10, items = []\<rparr>, name = ''root'', parent = None,
          children = [], start = None\<rparr>]) \<and>
   exit 2 (enter 1 \<lparr>intervals = \<lparr>maxlen = 10, items = []\<rparr>, name = ''root'', parent = None,
          children = [], start = None\<rparr>) =
     Inr \<lparr>intervals = \<lparr>maxlen = 10, items = [1]\<rparr>, name = ''root'', parent = None,
          children = [], start = None\<rparr> \<and>
   exit 5 \<lparr>intervals = \<lparr>maxlen = 10, items = [1]\<rparr>, name = ''root'', parent = None,
          children = [], start = None\<rparr> = Inl TypeError"
proof -
  let ?sw = "\<lparr>intervals = \<lparr>maxlen = 10, items = []\<rparr>, name = ''root'', parent = None,
          children = [], start = None\<rparr>"
  let ?s2 = "\<lparr>intervals = \<lparr>maxlen = 10, items = [1]\<rparr>, name = ''root'', parent = None,
          children = [], start = None\<rparr>"
  have i: "StopWatch_init ''root'' 10 = Inr ?sw"
    by (simp add: StopWatch_init_def BaseClock_init_def deque_init_def PY_SSIZE_T_MAX_def)
  have e: "exit 2 (enter 1 ?sw) = Inr ?s2"
    by (simp add: exit_enter intervals_append_def deque_append_def)
  from C10_exit_without_enter [of ?sw 5 "[?sw]" 0 "''root''" 10 ?sw 2 1 ?s2] i e
  show ?thesis by simp
qed

lemma enter_exit_all_items:
  "int (length (items (intervals s))) \<le> maxlen (intervals s) \<Longrightarrow>
   \<exists>s1. enter_exit_all ts s = Inr s1 \<and> maxlen (intervals s1) = maxlen (intervals s) \<and>
     items (intervals s1) =
       last_n (nat (maxlen (intervals s))) (items (intervals s) @ map (\<lambda>(t0, t1). t1 - t0) ts)"
proof (induction ts arbitrary: s)
  case Nil
  then show ?case by (simp add: last_n_def)
next
  case (Cons b ts)
  obtain t0 t1 where b: "b = (t0, t1)" by (cases b)
  let ?s1 = "(intervals_append (t1 - t0) s)\<lparr>start := None\<rparr>"
  have iv: "intervals ?s1 = deque_append (intervals s) (t1 - t0)"
    by (simp add: intervals_append_def)
  have m: "maxlen (intervals ?s1) = maxlen (intervals s)"
    by (simp add: iv maxlen_deque_append)
  have l: "int (length (items (intervals ?s1))) \<le> maxlen (intervals ?s1)"
    using Cons.prems by (simp add: iv maxlen_deque_append length_deque_append)
  have i: "items (intervals ?s1) =
      last_n (nat (maxlen (intervals s))) (items (intervals s) @ [t1 - t0])"
    using Cons.prems by (simp add: iv items_deque_append)
  from Cons.IH [OF l] obtain s2 where s2: "enter_exit_all ts ?s1 = Inr s2"
    "maxlen (intervals s2) = maxlen (intervals ?s1)"
    "items (intervals s2) =
       last_n (nat (maxlen (intervals ?s1))) (items (intervals ?s1) @ map (\<lambda>(t0, t1). t1 - t0) ts)"
    by blast
  have "enter_exit_all (b # ts) s = Inr s2"
    by (simp add: b exit_enter s2(1))
  moreover have "maxlen (intervals s2) = maxlen (intervals s)"
    using s2(2) m by simp
  moreover have "items (intervals s2) =
       last_n (nat (maxlen (intervals s))) (items (intervals s) @ map (\<lambda>(t0, t1). t1 - t0) (b # ts))"
    using s2(3) m i by (simp add: b last_n_append_last_n)
  ultimately show ?case by blast
qed

lemma with_StopWatch_appends:
  assumes "body (enter_at t0 a h) = (r, h2)" and "a < length h2"
    and "start (h2 ! a) = Some t0" and "intervals (h2 ! a) = intervals (h ! a)"
  shows "with_StopWatch t0 t1 a body h =
           (r, h2[a := (intervals_append (t1 - t0) (h2 ! a))\<lparr>start := None\<rparr>])"
  using assms by (simp add: with_StopWatch_def exit_at_def exit_def py_sub_def)

lemma items_deque_append_pos:
  assumes "0 < maxlen d" and "int (length (items d)) \<le> maxlen d"
  shows "items (deque_append d x) =
           (if int (length (items d)) = maxlen d then tl (items d) else items d) @ [x]"
proof (cases "int (length (items d)) = maxlen d")
  case True
  with assms(1) show ?thesis by (simp add: items_deque_append_full)
next
  case False
  with assms(2) have "\<not> maxlen d < 1 + int (length (items d))" by linarith
  with False show ?thesis by (simp add: deque_append_def Let_def)
qed

text \<open>
  Claim C2, as stated: on every StopWatch a completed \<open>__enter__\<close>/\<open>__exit__\<close> pair leaves
  one more sample in its history. It does not hold on a StopWatch of capacity 0, which
  the constructor accepts: the pair leaves the history empty.
\<close>

theorem C2_zero_capacity_counterexample:
  "StopWatch_init ''root'' 0 =
     Inr \<lparr>intervals = \<lparr>maxlen = 0, items = []\<rparr>, name = ''root'', parent = None,
        children = [], start = None\<rparr> \<and>
   exit 3 (enter 1 \<lparr>intervals = \<lparr>maxlen = 0, items = []\<rparr>, name = ''root'', parent = None,
        children = [], start = None\<rparr>) =
     Inr \<lparr>intervals = \<lparr>maxlen = 0, items = []\<rparr>, name = ''root'', parent = None,
        children = [], start = None\<rparr> \<and>
   items (intervals \<lparr>intervals = \<lparr>maxlen = 0, items = []\<rparr>, name = ''root'', parent = None,
        children = [], start = None\<rparr>) = []"
  by (simp add: StopWatch_init_def BaseClock_init_def deque_init_def PY_SSIZE_T_MAX_def
      exit_def enter_def py_sub_def intervals_append_def deque_append_def)

text \<open>
  Claim C2, amended. On a StopWatch of positive capacity, one \<open>__enter__\<close> followed by one
  \<open>__exit__\<close> leaves exactly one new sample in the history of that StopWatch: the history
  afterwards is the history before, without its oldest sample when it was full, followed
  by the elapsed time; name, parent and children stay as they were. The same holds for the
  statement \<open>with sw: body\<close>, whether the body ends normally or raises, when the body
  itself leaves the start time and the history of \<open>sw\<close> alone, and the exit changes no
  other object. \<open>N\<close> brackets on a new StopWatch of capacity \<open>C \<ge> N\<close>, each exit read from
  the clock no earlier than its entry, give exactly \<open>N\<close> samples, all \<open>\<ge> 0\<close>. On a
  StopWatch of capacity 0 the bracket completes and stores nothing.
\<close>

theorem C2_bracket_accounting:
  "(0 < maxlen (intervals self) \<and>
    int (length (items (intervals self))) \<le> maxlen (intervals self) \<longrightarrow>
      (\<exists>s1. exit t1 (enter t0 self) = Inr s1 \<and>
         items (intervals s1) =
           (if int (length (items (intervals self))) = maxlen (intervals self)
            then tl (items (intervals self)) else items (intervals self)) @ [t1 - t0] \<and>
         maxlen (intervals s1) = maxlen (intervals self) \<and>
         name s1 = name self \<and> parent s1 = parent self \<and> children s1 = children self)) \<and>
   (body (enter_at t0 a h) = (r, h2) \<and> a < length h2 \<and> start (h2 ! a) = Some t0 \<and>
    intervals (h2 ! a) = intervals (h ! a) \<and> 0 < maxlen (intervals (h ! a)) \<and>
    int (length (items (intervals (h ! a)))) \<le> maxlen (intervals (h ! a)) \<longrightarrow>
      (\<exists>h3. with_StopWatch t0 t1 a body h = (r, h3) \<and> length h3 = length h2 \<and>
         items (intervals (h3 ! a)) =
           (if int (length (items (intervals (h ! a)))) = maxlen (intervals (h ! a))
            then tl (items (intervals (h ! a))) else items (intervals (h ! a))) @ [t1 - t0] \<and>
         (\<forall>b. b \<noteq> a \<longrightarrow> h3 ! b = h2 ! b))) \<and>
   (StopWatch_init nm C = Inr sw \<and> int (length ts) \<le> C \<and> (\<forall>(u0, u1) \<in> set ts. u0 \<le> u1) \<longrightarrow>
      (\<exists>s2. enter_exit_all ts sw = Inr s2 \<and>
         length (items (intervals s2)) = length ts \<and>
         items (intervals s2) = map (\<lambda>(u0, u1). u1 - u0) ts \<and>
         (\<forall>v \<in> set (items (intervals s2)). 0 \<le> v))) \<and>
   (maxlen (intervals self) = 0 \<and> items (intervals self) = [] \<longrightarrow>
      (\<exists>s3. exit t1 (enter t0 self) = Inr s3 \<and> items (intervals s3) = []))"
proof -
  have one: "\<exists>s1. exit t1 (enter t0 self) = Inr s1 \<and>
         items (intervals s1) =
           (if int (length (items (intervals self))) = maxlen (intervals self)
            then tl (items (intervals self)) else items (intervals self)) @ [t1 - t0] \<and>
         maxlen (intervals s1) = maxlen (intervals self) \<and>
         name s1 = name self \<and> parent s1 = parent self \<and> children s1 = children self"
    if "0 < maxlen (intervals self)"
      "int (length (items (intervals self))) \<le> maxlen (intervals self)"
    using items_deque_append_pos [OF that, of "t1 - t0"]
    by (simp add: exit_enter intervals_append_def maxlen_deque_append)
  have wth: "\<exists>h3. with_StopWatch t0 t1 a body h = (r, h3) \<and> length h3 = length h2 \<and>
         items (intervals (h3 ! a)) =
           (if int (length (items (intervals (h ! a)))) = maxlen (intervals (h ! a))
            then tl (items (intervals (h ! a))) else items (intervals (h ! a))) @ [t1 - t0] \<and>
         (\<forall>b. b \<noteq> a \<longrightarrow> h3 ! b = h2 ! b)"
    if "body (enter_at t0 a h) = (r, h2)" "a < length h2" "start (h2 ! a) = Some t0"
      "intervals (h2 ! a) = intervals (h ! a)" "0 < maxlen (intervals (h ! a))"
      "int (length (items (intervals (h ! a)))) \<le> maxlen (intervals (h ! a))"
    using with_StopWatch_appends [of body t0 a h r h2 t1] that(1-4)
      items_deque_append_pos [OF that(5,6), of "t1 - t0"]
    by (simp add: intervals_append_def)
  have many: "\<exists>s2. enter_exit_all ts sw = Inr s2 \<and>
         length (items (intervals s2)) = length ts \<and>
         items (intervals s2) = map (\<lambda>(u0, u1). u1 - u0) ts \<and>
         (\<forall>v \<in> set (items (intervals s2)). 0 \<le> v)"
    if init: "StopWatch_init nm C = Inr sw" and n: "int (length ts) \<le> C"
      and mono: "\<forall>(u0, u1) \<in> set ts. u0 \<le> u1"
  proof -
    from init n have sw: "maxlen (intervals sw) = C" "items (intervals sw) = []"
      by (auto simp: StopWatch_init_def BaseClock_init_def deque_init_def split: if_splits)
    from sw n have le: "int (length (items (intervals sw))) \<le> maxlen (intervals sw)" by simp
    from enter_exit_all_items [OF le, of ts] obtain s2 where
      s2: "enter_exit_all ts sw = Inr s2"
        "items (intervals s2) = last_n (nat C) (map (\<lambda>(t0, t1). t1 - t0) ts)"
      using sw by auto
    from n have "length ts - nat C = 0" by linarith
    with s2(2) have it: "items (intervals s2) = map (\<lambda>(u0, u1). u1 - u0) ts"
      by (simp add: last_n_def)
    have "\<forall>v \<in> set (items (intervals s2)). 0 \<le> v"
      using mono by (auto simp: it)
    with s2(1) it show ?thesis by simp
  qed
  have none: "\<exists>s3. exit t1 (enter t0 self) = Inr s3 \<and> items (intervals s3) = []"
    if "maxlen (intervals self) = 0" "items (intervals self) = []"
    using that by (simp add: exit_enter intervals_append_def deque_append_def)
  show ?thesis
  proof (intro conjI impI)
    assume "0 < maxlen (intervals self) \<and>
      int (length (items (intervals self))) \<le> maxlen (intervals self)"
    then show "\<exists>s1. exit t1 (enter t0 self) = Inr s1 \<and>
         items (intervals s1) =
           (if int (length (items (intervals self))) = maxlen (intervals self)
            then tl (items (intervals self)) else items (intervals self)) @ [t1 - t0] \<and>
         maxlen (intervals s1) = maxlen (intervals self) \<and>
         name s1 = name self \<and> parent s1 = parent self \<and> children s1 = children self"
      using one by blast
  next
    assume "body (enter_at t0 a h) = (r, h2) \<and> a < length h2 \<and> start (h2 ! a) = Some t0 \<and>
      intervals (h2 ! a) = intervals (h ! a) \<and> 0 < maxlen (intervals (h ! a)) \<and>
      int (length (items (intervals (h ! a)))) \<le> maxlen (intervals (h ! a))"
    then show "\<exists>h3. with_StopWatch t0 t1 a body h = (r, h3) \<and> length h3 = length h2 \<and>
         items (intervals (h3 ! a)) =
           (if int (length (items (intervals (h ! a)))) = maxlen (intervals (h ! a))
            then tl (items (intervals (h ! a))) else items (intervals (h ! a))) @ [t1 - t0] \<and>
         (\<forall>b. b \<noteq> a \<longrightarrow> h3 ! b = h2 ! b)"
      using wth by blast
  next
    assume "StopWatch_init nm C = Inr sw \<and> int (length ts) \<le> C \<and>
      (\<forall>(u0, u1) \<in> set ts. u0 \<le> u1)"
    then show "\<exists>s2. enter_exit_all ts sw = Inr s2 \<and>
         length (items (intervals s2)) = length ts \<and>
         items (intervals s2) = map (\<lambda>(u0, u1). u1 - u0) ts \<and>
         (\<forall>v \<in> set (items (intervals s2)). 0 \<le> v)"
      using many by blast
  next
    assume "maxlen (intervals self) = 0 \<and> items (intervals self) = []"
    then show "\<exists>s3. exit t1 (enter t0 self) = Inr s3 \<and> items (intervals s3) = []"
      using none by blast
  qed
qed

theorem C2_bracket_accounting_witness:
  "0 < maxlen (intervals \<lparr>intervals = \<lparr>maxlen = 2, items = [5, 6]\<rparr>, name = ''root'', parent = None,
        children = [], start = None\<rparr>) \<and>
   int (length (items (intervals \<lparr>intervals = \<lparr>maxlen = 2, items = [5, 6]\<rparr>, name = ''root'', parent = None,
        children = [], start = None\<rparr>))) \<le> maxlen (intervals \<lparr>intervals = \<lparr>maxlen = 2, items = [5, 6]\<rparr>, name = ''root'', parent = None,
        children = [], start = None\<rparr>) \<and>
   (\<exists>s1. exit 3 (enter 1 \<lparr>intervals = \<lparr>maxlen = 2, items = [5, 6]\<rparr>, name = ''root'', parent = None,
        children = [], start = None\<rparr>) = Inr s1 \<and> items (intervals s1) = [6, 2]) \<and>
   (\<lambda>h. (Inl ValueError, h)) (enter_at 1 0 [\<lparr>intervals = \<lparr>maxlen = 2, items = []\<rparr>, name = ''root'', parent = None,
        children = [], start = None\<rparr>]) = (Inl ValueError, [\<lparr>intervals = \<lparr>maxlen = 2, items = []\<rparr>, name = ''root'', parent = None,
        children = [], start = Some 1\<rparr>]) \<and>
   (\<exists>h3. with_StopWatch 1 3 0 (\<lambda>h. (Inl ValueError, h)) [\<lparr>intervals = \<lparr>maxlen = 2, items = []\<rparr>, name = ''root'', parent = None,
        children = [], start = None\<rparr>] = (Inl ValueError, h3) \<and>
      length h3 = 1 \<and> items (intervals (h3 ! 0)) = [2]) \<and>
   StopWatch_init ''root'' 2 = Inr \<lparr>intervals = \<lparr>maxlen = 2, items = []\<rparr>, name = ''root'', parent = None,
        children = [], start = None\<rparr> \<and>
   int (length [(1 :: real, 3 :: real), (4, 4)]) \<le> 2 \<and>
   (1 :: real) \<le> 3 \<and> (4 :: real) \<le> 4 \<and>
   (\<exists>s2. enter_exit_all [(1 :: real, 3 :: real), (4, 4)] \<lparr>intervals = \<lparr>maxlen = 2, items = []\<rparr>, name = ''root'', parent = None,
        children = [], start = None\<rparr> = Inr s2 \<and>
      length (items (intervals s2)) = 2 \<and> items (intervals s2) = [2, 0] \<and>
      (\<forall>v \<in> set (items (intervals s2)). 0 \<le> v)) \<and>
   maxlen (intervals \<lparr>intervals = \<lparr>maxlen = 0, items = []\<rparr>, name = ''root'', parent = None,
        children = [], start = None\<rparr>) = 0 \<and>
   (\<exists>s3. exit 3 (enter 1 \<lparr>intervals = \<lparr>maxlen = 0, items = []\<rparr>, name = ''root'', parent = None,
        children = [], start = None\<rparr>) = Inr s3 \<and> items (intervals s3) = [])"
proof -
  let ?sw = "\<lparr>intervals = \<lparr>maxlen = 2, items = []\<rparr>, name = ''root'', parent = None,
        children = [], start = None\<rparr>"
  let ?swf = "\<lparr>intervals = \<lparr>maxlen = 2, items = [5, 6]\<rparr>, name = ''root'', parent = None,
        children = [], start = None\<rparr>"
  let ?swz = "\<lparr>intervals = \<lparr>maxlen = 0, items = []\<rparr>, name = ''root'', parent = None,
        children = [], start = None\<rparr>"
  let ?h2 = "[\<lparr>intervals = \<lparr>maxlen = 2, items = []\<rparr>, name = ''root'', parent = None,
        children = [], start = Some 1\<rparr>]"
  let ?body = "\<lambda>h::heap. (Inl ValueError :: py_error + unit, h)"
  let ?ts = "[(1 :: real, 3 :: real), (4, 4)]"
  have b: "?body (enter_at 1 0 [?sw]) = (Inl ValueError, ?h2)"
    by (simp add: enter_at_def enter_def)
  have f: "0 < length ?h2" "start (?h2 ! 0) = Some 1" "intervals (?h2 ! 0) = intervals ([?sw] ! 0)"
    "0 < maxlen (intervals ([?sw] ! 0))"
    "int (length (items (intervals ([?sw] ! 0)))) \<le> maxlen (intervals ([?sw] ! 0))"
    by simp_all
  have i: "StopWatch_init ''root'' 2 = Inr ?sw"
    by (simp add: StopWatch_init_def BaseClock_init_def deque_init_def PY_SSIZE_T_MAX_def)
  have n: "int (length ?ts) \<le> 2" "\<forall>(u0, u1) \<in> set ?ts. u0 \<le> u1"
    by simp_all
  have p: "0 < maxlen (intervals ?swf)"
    "int (length (items (intervals ?swf))) \<le> maxlen (intervals ?swf)"
    by simp_all
  have z: "maxlen (intervals ?swz) = 0" "items (intervals ?swz) = []"
    by simp_all
  note inst = C2_bracket_accounting
    [of ?swf 3 1 ?body 0 "[?sw]" "Inl ValueError" ?h2 "''root''" 2 ?sw ?ts]
  note inst0 = C2_bracket_accounting
    [of ?swz 3 1 ?body 0 "[?sw]" "Inl ValueError" ?h2 "''root''" 2 ?sw ?ts]
  from inst [THEN conjunct1] p
  obtain s1 where s1: "exit 3 (enter 1 ?swf) = Inr s1"
    "items (intervals s1) =
           (if int (length (items (intervals ?swf))) = maxlen (intervals ?swf)
            then tl (items (intervals ?swf)) else items (intervals ?swf)) @ [3 - 1]"
    by blast
  from s1(2) have "items (intervals s1) = [6, 2]" by simp
  with s1(1) have o: "\<exists>s1. exit 3 (enter 1 ?swf) = Inr s1 \<and> items (intervals s1) = [6, 2]"
    by blast
  from inst [THEN conjunct2, THEN conjunct1] b f
  obtain h3 where h3: "with_StopWatch 1 3 0 ?body [?sw] = (Inl ValueError, h3)"
    "length h3 = length ?h2"
    "items (intervals (h3 ! 0)) =
           (if int (length (items (intervals ([?sw] ! 0)))) = maxlen (intervals ([?sw] ! 0))
            then tl (items (intervals ([?sw] ! 0))) else items (intervals ([?sw] ! 0))) @ [3 - 1]"
    by blast
  from h3(2,3) have "length h3 = 1 \<and> items (intervals (h3 ! 0)) = [2]"
    by simp
  with h3(1) have w: "\<exists>h3. with_StopWatch 1 3 0 ?body [?sw] = (Inl ValueError, h3) \<and>
      length h3 = 1 \<and> items (intervals (h3 ! 0)) = [2]"
    by blast
  from inst [THEN conjunct2, THEN conjunct2, THEN conjunct1] i n
  obtain s2 where s2: "enter_exit_all ?ts ?sw = Inr s2"
    "length (items (intervals s2)) = length ?ts"
    "items (intervals s2) = map (\<lambda>(u0, u1). u1 - u0) ?ts"
    "\<forall>v \<in> set (items (intervals s2)). 0 \<le> v"
    by blast
  from s2(2,3) have "length (items (intervals s2)) = 2 \<and> items (intervals s2) = [2, 0]"
    by simp
  with s2(1,4) have m: "\<exists>s2. enter_exit_all ?ts ?sw = Inr s2 \<and>
      length (items (intervals s2)) = 2 \<and> items (intervals s2) = [2, 0] \<and>
      (\<forall>v \<in> set (items (intervals s2)). 0 \<le> v)"
    by blast
  from inst0 [THEN conjunct2, THEN conjunct2, THEN conjunct2] z
  have e: "\<exists>s3. exit 3 (enter 1 ?swz) = Inr s3 \<and> items (intervals s3) = []"
    by blast
  have le: "(1 :: real) \<le> 3" "(4 :: real) \<le> 4" by simp_all
  from p o b w i n(1) le m z(1) e show ?thesis by simp
qed

section \<open>The tree of StopWatches\<close>

subsection \<open>The operations keep the heap well-formed\<close>

lemma wf_heap_Nil: "wf_heap []"
  by (simp add: wf_heap_def)

lemma wf_heapD:
  assumes "wf_heap h" and "a < length h"
  shows "int (length (items (intervals (h ! a)))) \<le> maxlen (intervals (h ! a))"
    and "distinct (map fst (children (h ! a)))"
    and "\<And>k c. (k, c) \<in> set (children (h ! a)) \<Longrightarrow>
           a < c \<and> c < length h \<and> parent (h ! c) = Some a \<and> name (h ! c) = k"
    and "\<And>p. parent (h ! a) = Some p \<Longrightarrow>
           p < a \<and> map_of (children (h ! p)) (name (h ! a)) = Some a"
  using assms unfolding wf_heap_def by blast+

lemma wf_heap_maxlen: "wf_heap h \<Longrightarrow> a < length h \<Longrightarrow> 0 \<le> maxlen (intervals (h ! a))"
  using wf_heapD(1) [of h a] by linarith

lemma StopWatch_init_Inr:
  "0 \<le> c \<Longrightarrow> c \<le> PY_SSIZE_T_MAX \<Longrightarrow> StopWatch_init nm c =
     Inr \<lparr>intervals = \<lparr>maxlen = c, items = []\<rparr>, name = nm, parent = None,
          children = [], start = None\<rparr>"
  by (simp add: StopWatch_init_def BaseClock_init_def deque_init_def)

lemma StopWatch_init_Inl:
  "c < 0 \<or> PY_SSIZE_T_MAX < c \<Longrightarrow>
   StopWatch_init nm c =
     Inl (if c < - PY_SSIZE_T_MAX - 1 \<or> PY_SSIZE_T_MAX < c then OverflowError else ValueError)"
  by (auto simp: StopWatch_init_def BaseClock_init_def deque_init_def PY_SSIZE_T_MAX_def)

lemma child_existing:
  "map_of (children (h ! self)) nm = Some c \<Longrightarrow> child self nm mo h = Inr (c, h)"
  by (simp add: child_def)

lemma child_new:
  assumes "map_of (children (h ! self)) nm = None" and "self < length h"
    and "mi = (case mo of None \<Rightarrow> maxlen (intervals (h ! self)) | Some m \<Rightarrow> m)"
  shows "child self nm mo h =
           (if 0 \<le> mi \<and> mi \<le> PY_SSIZE_T_MAX then Inr (length h, child_heap self nm mi h)
            else Inl (if mi < - PY_SSIZE_T_MAX - 1 \<or> PY_SSIZE_T_MAX < mi
                      then OverflowError else ValueError))"
proof (cases "0 \<le> mi \<and> mi \<le> PY_SSIZE_T_MAX")
  case True
  then have "0 \<le> mi" "mi \<le> PY_SSIZE_T_MAX" by simp_all
  from StopWatch_init_Inr [OF this, of nm] assms True show ?thesis
    by (simp add: child_def new_StopWatch_def child_heap_def Let_def nth_append
        list_update_append)
next
  case False
  then have "mi < 0 \<or> PY_SSIZE_T_MAX < mi" by auto
  from StopWatch_init_Inl [OF this, of nm] assms False show ?thesis
    by (simp add: child_def new_StopWatch_def)
qed

lemma length_child_heap: "length (child_heap self nm mi h) = Suc (length h)"
  by (simp add: child_heap_def)

lemma child_heap_new:
  "child_heap self nm mi h ! length h =
     \<lparr>intervals = \<lparr>maxlen = mi, items = []\<rparr>, name = nm, parent = Some self,
       children = [], start = None\<rparr>"
  by (simp add: child_heap_def nth_append)

lemma child_heap_self:
  "self < length h \<Longrightarrow>
   child_heap self nm mi h ! self =
     (h ! self)\<lparr>children := children (h ! self) @ [(nm, length h)]\<rparr>"
  by (simp add: child_heap_def nth_append)

lemma child_heap_other:
  "a < length h \<Longrightarrow> a \<noteq> self \<Longrightarrow> child_heap self nm mi h ! a = h ! a"
  by (simp add: child_heap_def nth_append)

lemma child_heap_fields:
  assumes "a < length h"
  shows "intervals (child_heap self nm mi h ! a) = intervals (h ! a)"
    and "name (child_heap self nm mi h ! a) = name (h ! a)"
    and "parent (child_heap self nm mi h ! a) = parent (h ! a)"
    and "start (child_heap self nm mi h ! a) = start (h ! a)"
    and "children (child_heap self nm mi h ! a) =
           (if a = self then children (h ! a) @ [(nm, length h)] else children (h ! a))"
  using assms by (cases "a = self"; simp add: child_heap_self child_heap_other)+

lemma wf_child_heap:
  assumes wf: "wf_heap h" and self: "self < length h"
    and fresh: "map_of (children (h ! self)) nm = None" and mi: "0 \<le> mi"
  shows "wf_heap (child_heap self nm mi h)"
  unfolding wf_heap_def
proof (intro allI impI)
  let ?h = "child_heap self nm mi h"
  fix a assume "a < length ?h"
  then have "a = length h \<or> a < length h"
    by (auto simp: length_child_heap)
  then consider (new) "a = length h" | (old) "a < length h"
    by blast
  then show "int (length (items (intervals (?h ! a)))) \<le> maxlen (intervals (?h ! a)) \<and>
        distinct (map fst (children (?h ! a))) \<and>
        (\<forall>(k, c) \<in> set (children (?h ! a)).
           a < c \<and> c < length ?h \<and> parent (?h ! c) = Some a \<and> name (?h ! c) = k) \<and>
        (\<forall>p. parent (?h ! a) = Some p \<longrightarrow>
           p < a \<and> map_of (children (?h ! p)) (name (?h ! a)) = Some a)"
  proof cases
    case new
    have "map_of (children (?h ! self)) nm = Some (length h)"
      using self fresh by (simp add: child_heap_fields map_add_def)
    with new mi self show ?thesis
      by (simp add: child_heap_new)
  next
    case old
    note d = wf_heapD [OF wf old]
    have iv: "int (length (items (intervals (?h ! a)))) \<le> maxlen (intervals (?h ! a))"
      using d(1) old by (simp add: child_heap_fields)
    have nm_fresh: "nm \<notin> fst ` set (children (h ! self))"
      using fresh by (simp add: map_of_eq_None_iff)
    have dist: "distinct (map fst (children (?h ! a)))"
      using d(2) old nm_fresh by (auto simp: child_heap_fields)
    have ch: "a < c \<and> c < length ?h \<and> parent (?h ! c) = Some a \<and> name (?h ! c) = k"
      if "(k, c) \<in> set (children (?h ! a))" for k c
    proof (cases "(k, c) \<in> set (children (h ! a))")
      case True
      from d(3) [OF True] show ?thesis
        by (simp add: length_child_heap child_heap_fields)
    next
      case False
      with that old have "a = self" "k = nm" "c = length h"
        by (auto simp: child_heap_fields split: if_splits)
      with old show ?thesis
        by (simp add: length_child_heap child_heap_new)
    qed
    have pa: "p < a \<and> map_of (children (?h ! p)) (name (?h ! a)) = Some a"
      if "parent (?h ! a) = Some p" for p
    proof -
      from that old have p: "parent (h ! a) = Some p" by (simp add: child_heap_fields)
      from d(4) [OF p] have pl: "p < a" and m: "map_of (children (h ! p)) (name (h ! a)) = Some a"
        by simp_all
      from pl old have "p < length h" by simp
      with m old pl show ?thesis
        by (auto simp: child_heap_fields map_add_def)
    qed
    from iv dist ch pa show ?thesis by blast
  qed
qed

lemma wf_append_root:
  assumes wf: "wf_heap h" and c: "0 \<le> c"
  shows "wf_heap (h @ [\<lparr>intervals = \<lparr>maxlen = c, items = []\<rparr>, name = nm, parent = None,
          children = [], start = None\<rparr>])"
  unfolding wf_heap_def
proof (intro allI impI)
  let ?sw = "\<lparr>intervals = \<lparr>maxlen = c, items = []\<rparr>, name = nm, parent = None,
          children = [], start = None\<rparr>"
  let ?h = "h @ [?sw]"
  fix a assume "a < length ?h"
  then have "a = length h \<or> a < length h" by auto
  then consider (root) "a = length h" | (old) "a < length h" by blast
  then show "int (length (items (intervals (?h ! a)))) \<le> maxlen (intervals (?h ! a)) \<and>
        distinct (map fst (children (?h ! a))) \<and>
        (\<forall>(k, c) \<in> set (children (?h ! a)).
           a < c \<and> c < length ?h \<and> parent (?h ! c) = Some a \<and> name (?h ! c) = k) \<and>
        (\<forall>p. parent (?h ! a) = Some p \<longrightarrow>
           p < a \<and> map_of (children (?h ! p)) (name (?h ! a)) = Some a)"
  proof cases
    case root
    with c show ?thesis by (simp add: nth_append)
  next
    case old
    note d = wf_heapD [OF wf old]
    have ch: "a < k \<and> k < length ?h \<and> parent (?h ! k) = Some a \<and> name (?h ! k) = n"
      if "(n, k) \<in> set (children (?h ! a))" for n k
    proof -
      from that old have "(n, k) \<in> set (children (h ! a))" by (simp add: nth_append)
      from d(3) [OF this] show ?thesis by (simp add: nth_append)
    qed
    have pa: "p < a \<and> map_of (children (?h ! p)) (name (?h ! a)) = Some a"
      if "parent (?h ! a) = Some p" for p
    proof -
      from that old have "parent (h ! a) = Some p" by (simp add: nth_append)
      from d(4) [OF this] old show ?thesis by (simp add: nth_append)
    qed
    from d(1,2) old have "int (length (items (intervals (?h ! a)))) \<le> maxlen (intervals (?h ! a))"
      "distinct (map fst (children (?h ! a)))"
      by (simp_all add: nth_append)
    with ch pa show ?thesis by blast
  qed
qed

lemma wf_new_StopWatch:
  assumes "wf_heap h" and "new_StopWatch nm c h = Inr (a, h1)"
  shows "wf_heap h1 \<and> a = length h \<and> length h1 = Suc (length h) \<and> parent (h1 ! a) = None"
proof (cases "0 \<le> c \<and> c \<le> PY_SSIZE_T_MAX")
  case False
  then have "c < 0 \<or> PY_SSIZE_T_MAX < c" by auto
  from StopWatch_init_Inl [OF this, of nm] assms(2) show ?thesis
    by (simp add: new_StopWatch_def)
next
  case True
  then have c: "0 \<le> c" "c \<le> PY_SSIZE_T_MAX" by simp_all
  from assms(2) have "a = length h"
    and "h1 = h @ [\<lparr>intervals = \<lparr>maxlen = c, items = []\<rparr>, name = nm, parent = None,
          children = [], start = None\<rparr>]"
    by (simp_all add: new_StopWatch_def StopWatch_init_Inr [OF c])
  with wf_append_root [OF assms(1) c(1), of nm] show ?thesis by simp
qed

lemma wf_child_entry:
  assumes "wf_heap h" and "self < length h" and "map_of (children (h ! self)) nm = Some c"
  shows "self < c \<and> c < length h \<and> parent (h ! c) = Some self \<and> name (h ! c) = nm"
  using wf_heapD(3) [OF assms(1,2) map_of_SomeD [OF assms(3)]] .

lemma child_result:
  assumes wf: "wf_heap h" and self: "self < length h"
    and ch: "child self nm mo h = Inr (c, h1)"
  shows "wf_heap h1 \<and> self < length h1 \<and> length h \<le> length h1 \<and>
         map_of (children (h1 ! self)) nm = Some c \<and>
         (\<forall>a < length h. name (h1 ! a) = name (h ! a) \<and> parent (h1 ! a) = parent (h ! a) \<and>
            intervals (h1 ! a) = intervals (h ! a) \<and> start (h1 ! a) = start (h ! a))"
proof (cases "map_of (children (h ! self)) nm")
  case (Some c')
  with ch have "c = c'" "h1 = h" by (simp_all add: child_existing)
  with Some wf self show ?thesis by simp
next
  case None
  define mi where "mi = (case mo of None \<Rightarrow> maxlen (intervals (h ! self)) | Some m \<Rightarrow> m)"
  from child_new [OF None self mi_def] ch
  have mi: "0 \<le> mi" "mi \<le> PY_SSIZE_T_MAX" and c: "c = length h"
    and h1: "h1 = child_heap self nm mi h"
    by (auto split: if_splits)
  have "map_of (children (h1 ! self)) nm = Some c"
    using self None by (simp add: h1 c child_heap_fields map_add_def)
  moreover have "wf_heap h1"
    unfolding h1 by (rule wf_child_heap [OF wf self None mi(1)])
  ultimately show ?thesis
    using self by (simp add: h1 length_child_heap child_heap_fields)
qed

lemma wf_heap_update:
  assumes wf: "wf_heap h" and a: "a < length h"
    and same: "name sw = name (h ! a)" "parent sw = parent (h ! a)" "children sw = children (h ! a)"
    and cap: "int (length (items (intervals sw))) \<le> maxlen (intervals sw)"
  shows "wf_heap (h[a := sw])"
  unfolding wf_heap_def
proof (intro allI impI)
  let ?h = "h[a := sw]"
  fix b assume "b < length ?h"
  then have b: "b < length h" by simp
  note d = wf_heapD [OF wf b]
  have f: "name (?h ! c) = name (h ! c)" "parent (?h ! c) = parent (h ! c)"
    "children (?h ! c) = children (h ! c)" if "c < length h" for c
    using that same by (cases "c = a"; simp)+
  have iv: "int (length (items (intervals (?h ! b)))) \<le> maxlen (intervals (?h ! b))"
    using d(1) cap b by (cases "b = a") simp_all
  have ch: "b < c \<and> c < length ?h \<and> parent (?h ! c) = Some b \<and> name (?h ! c) = k"
    if "(k, c) \<in> set (children (?h ! b))" for k c
  proof -
    from that b have "(k, c) \<in> set (children (h ! b))" by (simp add: f)
    from d(3) [OF this] show ?thesis by (simp add: f)
  qed
  have pa: "p < b \<and> map_of (children (?h ! p)) (name (?h ! b)) = Some b"
    if "parent (?h ! b) = Some p" for p
  proof -
    from that b have "parent (h ! b) = Some p" by (simp add: f)
    from d(4) [OF this] b show ?thesis by (simp add: f)
  qed
  from d(2) b have "distinct (map fst (children (?h ! b)))" by (simp add: f)
  with iv ch pa
  show "int (length (items (intervals (?h ! b)))) \<le> maxlen (intervals (?h ! b)) \<and>
        distinct (map fst (children (?h ! b))) \<and>
        (\<forall>(k, c) \<in> set (children (?h ! b)).
           b < c \<and> c < length ?h \<and> parent (?h ! c) = Some b \<and> name (?h ! c) = k) \<and>
        (\<forall>p. parent (?h ! b) = Some p \<longrightarrow>
           p < b \<and> map_of (children (?h ! p)) (name (?h ! b)) = Some b)"
    by blast
qed

lemma wf_enter_at: "wf_heap h \<Longrightarrow> a < length h \<Longrightarrow> wf_heap (enter_at now a h)"
  unfolding enter_at_def
  by (rule wf_heap_update) (simp_all add: enter_def wf_heapD(1))

lemma wf_exit_at:
  assumes "wf_heap h" and "a < length h"
  shows "wf_heap (snd (exit_at now a h))"
proof (cases "start (h ! a)")
  case None
  with assms(1) show ?thesis by (simp add: exit_at_def exit_def py_sub_def)
next
  case (Some t)
  have "wf_heap (h[a := (intervals_append (now - t) (h ! a))\<lparr>start := None\<rparr>])"
    using assms wf_heapD(1) [OF assms]
    by (intro wf_heap_update)
      (simp_all add: intervals_append_def maxlen_deque_append length_deque_append)
  with Some show ?thesis by (simp add: exit_at_def exit_def py_sub_def)
qed

subsection \<open>Children\<close>

lemma child_default_returns:
  assumes wf: "wf_heap h" and self: "self < length h"
    and fits: "maxlen (intervals (h ! self)) \<le> PY_SSIZE_T_MAX"
  shows "\<exists>c h1. child self nm None h = Inr (c, h1)"
proof (cases "map_of (children (h ! self)) nm")
  case (Some c)
  then show ?thesis by (simp add: child_existing)
next
  case None
  from wf_heap_maxlen [OF wf self] fits
    child_new [OF None self, of "maxlen (intervals (h ! self))" None]
  show ?thesis by simp
qed

text \<open>Every capacity in the heap is one that the constructor accepts, and \<open>child\<close> keeps
  it so.\<close>

lemma child_keeps_capacities:
  assumes fits: "\<forall>a < length h. maxlen (intervals (h ! a)) \<le> PY_SSIZE_T_MAX"
    and self: "self < length h" and ch: "child self nm mo h = Inr (c, h1)"
  shows "\<forall>a < length h1. maxlen (intervals (h1 ! a)) \<le> PY_SSIZE_T_MAX"
proof (cases "map_of (children (h ! self)) nm")
  case (Some c')
  with ch have "h1 = h" by (simp add: child_existing)
  with fits show ?thesis by simp
next
  case None
  define mi where "mi = (case mo of None \<Rightarrow> maxlen (intervals (h ! self)) | Some m \<Rightarrow> m)"
  from child_new [OF None self mi_def] ch
  have mi: "mi \<le> PY_SSIZE_T_MAX" and h1: "h1 = child_heap self nm mi h"
    by (auto split: if_splits)
  show ?thesis
  proof (intro allI impI)
    fix a assume "a < length h1"
    then have "a = length h \<or> a < length h" by (auto simp: h1 length_child_heap)
    then show "maxlen (intervals (h1 ! a)) \<le> PY_SSIZE_T_MAX"
    proof
      assume "a = length h"
      with mi show ?thesis by (simp add: h1 child_heap_new)
    next
      assume "a < length h"
      with fits show ?thesis by (simp add: h1 child_heap_fields)
    qed
  qed
qed

lemma child_created:
  assumes self: "self < length h" and fresh: "map_of (children (h ! self)) nm = None"
    and ch: "child self nm mo h = Inr (c, h1)"
  shows "c = length h \<and> length h1 = Suc (length h) \<and> parent (h1 ! c) = Some self \<and>
         name (h1 ! c) = nm \<and> children (h1 ! c) = [] \<and> items (intervals (h1 ! c)) = [] \<and>
         start (h1 ! c) = None \<and>
         maxlen (intervals (h1 ! c)) =
           (case mo of None \<Rightarrow> maxlen (intervals (h ! self)) | Some m \<Rightarrow> m) \<and>
         children (h1 ! self) = children (h ! self) @ [(nm, c)]"
proof -
  define mi where "mi = (case mo of None \<Rightarrow> maxlen (intervals (h ! self)) | Some m \<Rightarrow> m)"
  from child_new [OF fresh self mi_def] ch
  have c: "c = length h" and h1: "h1 = child_heap self nm mi h"
    by (auto split: if_splits)
  show ?thesis
    using self by (simp add: c h1 length_child_heap child_heap_new child_heap_fields mi_def)
qed

text \<open>
  Claim C4. On a well-formed heap, for a StopWatch \<open>self\<close>: a second call of \<open>child\<close>
  with the same name returns the same object and changes nothing; two calls with different
  names return different objects, both with \<open>self\<close> as parent; a call with a name that is
  not yet a key creates a new object, whose parent is \<open>self\<close>, registers it in the
  \<open>children\<close> of \<open>self\<close> under the name, and gives it the capacity passed or, when none is
  passed, the capacity of \<open>self\<close>; and a call without a capacity always returns, the
  capacity of \<open>self\<close> being one that the constructor accepts.
\<close>

theorem C4_child_caching:
  assumes wf: "wf_heap h" and self: "self < length h"
  shows "(child self nm mo h = Inr (c, h1) \<longrightarrow> child self nm mo' h1 = Inr (c, h1)) \<and>
         (nm \<noteq> nm' \<and> child self nm mo h = Inr (c, h1) \<and> child self nm' mo' h1 = Inr (c', h2) \<longrightarrow>
            c \<noteq> c' \<and> parent (h2 ! c) = Some self \<and> parent (h2 ! c') = Some self) \<and>
         (map_of (children (h ! self)) nm = None \<and> child self nm mo h = Inr (c, h1) \<longrightarrow>
            c = length h \<and> length h1 = Suc (length h) \<and> parent (h1 ! c) = Some self \<and>
            map_of (children (h1 ! self)) nm = Some c \<and>
            maxlen (intervals (h1 ! c)) =
              (case mo of None \<Rightarrow> maxlen (intervals (h ! self)) | Some m \<Rightarrow> m)) \<and>
         (maxlen (intervals (h ! self)) \<le> PY_SSIZE_T_MAX \<longrightarrow>
            (\<exists>d h3. child self nm None h = Inr (d, h3)))"
proof -
  have same: "child self nm mo' h1 = Inr (c, h1)" if "child self nm mo h = Inr (c, h1)"
    using child_result [OF wf self that] by (simp add: child_existing)
  have diff: "c \<noteq> c' \<and> parent (h2 ! c) = Some self \<and> parent (h2 ! c') = Some self"
    if ne: "nm \<noteq> nm'" and c1: "child self nm mo h = Inr (c, h1)"
      and c2: "child self nm' mo' h1 = Inr (c', h2)"
  proof -
    from child_result [OF wf self c1]
    have wf1: "wf_heap h1" and s1: "self < length h1"
      and r1: "map_of (children (h1 ! self)) nm = Some c"
      by simp_all
    from child_result [OF wf1 s1 c2]
    have wf2: "wf_heap h2" and s2: "self < length h2"
      and r2: "map_of (children (h2 ! self)) nm' = Some c'"
      and keep: "\<forall>a < length h1. name (h2 ! a) = name (h1 ! a) \<and> parent (h2 ! a) = parent (h1 ! a)"
      by simp_all
    from wf_child_entry [OF wf1 s1 r1]
    have e1: "c < length h1" "parent (h1 ! c) = Some self" "name (h1 ! c) = nm" by simp_all
    from wf_child_entry [OF wf2 s2 r2]
    have e2: "parent (h2 ! c') = Some self" "name (h2 ! c') = nm'" by simp_all
    from keep e1 have k: "name (h2 ! c) = nm" "parent (h2 ! c) = Some self" by simp_all
    from k(1) e2(2) ne have "c \<noteq> c'" by auto
    with k(2) e2(1) show ?thesis by simp
  qed
  have created: "c = length h \<and> length h1 = Suc (length h) \<and> parent (h1 ! c) = Some self \<and>
            map_of (children (h1 ! self)) nm = Some c \<and>
            maxlen (intervals (h1 ! c)) =
              (case mo of None \<Rightarrow> maxlen (intervals (h ! self)) | Some m \<Rightarrow> m)"
    if "map_of (children (h ! self)) nm = None" "child self nm mo h = Inr (c, h1)"
    using child_created [OF self that] child_result [OF wf self that(2)] by blast
  have dflt: "\<exists>d h3. child self nm None h = Inr (d, h3)"
    if "maxlen (intervals (h ! self)) \<le> PY_SSIZE_T_MAX"
    by (rule child_default_returns [OF wf self that])
  from same diff created dflt show ?thesis by blast
qed

theorem C4_child_caching_witness:
  "wf_heap [\<lparr>intervals = \<lparr>maxlen = 10, items = []\<rparr>, name = ''root'', parent = None,
        children = [], start = None\<rparr>] \<and> (0::nat) < length [\<lparr>intervals = \<lparr>maxlen = 10, items = []\<rparr>, name = ''root'', parent = None,
        children = [], start = None\<rparr>] \<and>
   child 0 ''x'' None [\<lparr>intervals = \<lparr>maxlen = 10, items = []\<rparr>, name = ''root'', parent = None,
        children = [], start = None\<rparr>] = Inr (1, [\<lparr>intervals = \<lparr>maxlen = 10, items = []\<rparr>, name = ''root'', parent = None,
        children = [(''x'', 1)], start = None\<rparr>,
      \<lparr>intervals = \<lparr>maxlen = 10, items = []\<rparr>, name = ''x'', parent = Some 0,
        children = [], start = None\<rparr>]) \<and>
   child 0 ''x'' (Some 3) [\<lparr>intervals = \<lparr>maxlen = 10, items = []\<rparr>, name = ''root'', parent = None,
        children = [(''x'', 1)], start = None\<rparr>,
      \<lparr>intervals = \<lparr>maxlen = 10, items = []\<rparr>, name = ''x'', parent = Some 0,
        children = [], start = None\<rparr>] = Inr (1, [\<lparr>intervals = \<lparr>maxlen = 10, items = []\<rparr>, name = ''root'', parent = None,
        children = [(''x'', 1)], start = None\<rparr>,
      \<lparr>intervals = \<lparr>maxlen = 10, items = []\<rparr>, name = ''x'', parent = Some 0,
        children = [], start = None\<rparr>]) \<and>
   ''x'' \<noteq> ''y'' \<and>
   child 0 ''y'' (Some 5) [\<lparr>intervals = \<lparr>maxlen = 10, items = []\<rparr>, name = ''root'', parent = None,
        children = [(''x'', 1)], start = None\<rparr>,
      \<lparr>intervals = \<lparr>maxlen = 10, items = []\<rparr>, name = ''x'', parent = Some 0,
        children = [], start = None\<rparr>] = Inr (2, [\<lparr>intervals = \<lparr>maxlen = 10, items = []\<rparr>, name = ''root'', parent = None,
        children = [(''x'', 1), (''y'', 2)], start = None\<rparr>,
      \<lparr>intervals = \<lparr>maxlen = 10, items = []\<rparr>, name = ''x'', parent = Some 0,
        children = [], start = None\<rparr>,
      \<lparr>intervals = \<lparr>maxlen = 5, items = []\<rparr>, name = ''y'', parent = Some 0,
        children = [], start = None\<rparr>]) \<and>
   (1::nat) \<noteq> 2 \<and> parent ([\<lparr>intervals = \<lparr>maxlen = 10, items = []\<rparr>, name = ''root'', parent = None,
        children = [(''x'', 1), (''y'', 2)], start = None\<rparr>,
      \<lparr>intervals = \<lparr>maxlen = 10, items = []\<rparr>, name = ''x'', parent = Some 0,
        children = [], start = None\<rparr>,
      \<lparr>intervals = \<lparr>maxlen = 5, items = []\<rparr>, name = ''y'', parent = Some 0,
        children = [], start = None\<rparr>] ! 1) = Some 0 \<and> parent ([\<lparr>intervals = \<lparr>maxlen = 10, items = []\<rparr>, name = ''root'', parent = None,
        children = [(''x'', 1), (''y'', 2)], start = None\<rparr>,
      \<lparr>intervals = \<lparr>maxlen = 10, items = []\<rparr>, name = ''x'', parent = Some 0,
        children = [], start = None\<rparr>,
      \<lparr>intervals = \<lparr>maxlen = 5, items = []\<rparr>, name = ''y'', parent = Some 0,
        children = [], start = None\<rparr>] ! 2) = Some 0 \<and>
   map_of (children ([\<lparr>intervals = \<lparr>maxlen = 10, items = []\<rparr>, name = ''root'', parent = None,
        children = [], start = None\<rparr>] ! 0)) ''x'' = None \<and>
   map_of (children ([\<lparr>intervals = \<lparr>maxlen = 10, items = []\<rparr>, name = ''root'', parent = None,
        children = [(''x'', 1)], start = None\<rparr>,
      \<lparr>intervals = \<lparr>maxlen = 10, items = []\<rparr>, name = ''x'', parent = Some 0,
        children = [], start = None\<rparr>] ! 0)) ''x'' = Some 1 \<and>
   maxlen (intervals ([\<lparr>intervals = \<lparr>maxlen = 10, items = []\<rparr>, name = ''root'', parent = None,
        children = [(''x'', 1)], start = None\<rparr>,
      \<lparr>intervals = \<lparr>maxlen = 10, items = []\<rparr>, name = ''x'', parent = Some 0,
        children = [], start = None\<rparr>] ! 1)) = 10 \<and>
   maxlen (intervals ([\<lparr>intervals = \<lparr>maxlen = 10, items = []\<rparr>, name = ''root'', parent = None,
        children = [], start = None\<rparr>] ! 0)) \<le> PY_SSIZE_T_MAX \<and>
   (\<exists>d h3. child 0 ''x'' None [\<lparr>intervals = \<lparr>maxlen = 10, items = []\<rparr>, name = ''root'', parent = None,
        children = [], start = None\<rparr>] = Inr (d, h3))"
proof -
  let ?h0 = "[\<lparr>intervals = \<lparr>maxlen = 10, items = []\<rparr>, name = ''root'', parent = None,
        children = [], start = None\<rparr>]"
  let ?h1 = "[\<lparr>intervals = \<lparr>maxlen = 10, items = []\<rparr>, name = ''root'', parent = None,
        children = [(''x'', 1)], start = None\<rparr>,
      \<lparr>intervals = \<lparr>maxlen = 10, items = []\<rparr>, name = ''x'', parent = Some 0,
        children = [], start = None\<rparr>]"
  let ?h2 = "[\<lparr>intervals = \<lparr>maxlen = 10, items = []\<rparr>, name = ''root'', parent = None,
        children = [(''x'', 1), (''y'', 2)], start = None\<rparr>,
      \<lparr>intervals = \<lparr>maxlen = 10, items = []\<rparr>, name = ''x'', parent = Some 0,
        children = [], start = None\<rparr>,
      \<lparr>intervals = \<lparr>maxlen = 5, items = []\<rparr>, name = ''y'', parent = Some 0,
        children = [], start = None\<rparr>]"
  have wf: "wf_heap ?h0"
    using wf_append_root [OF wf_heap_Nil, of 10 "''root''"] by simp
  have self: "(0::nat) < length ?h0" by simp
  have c1: "child 0 ''x'' None ?h0 = Inr (1, ?h1)"
    by (simp add: child_def new_StopWatch_def StopWatch_init_def BaseClock_init_def
        deque_init_def PY_SSIZE_T_MAX_def)
  have c2: "child 0 ''y'' (Some 5) ?h1 = Inr (2, ?h2)"
    by (simp add: child_def new_StopWatch_def StopWatch_init_def BaseClock_init_def
        deque_init_def PY_SSIZE_T_MAX_def)
  have ne: "''x'' \<noteq> ''y''" by simp
  have fresh: "map_of (children (?h0 ! 0)) ''x'' = None" by simp
  note inst = C4_child_caching [OF wf self, of "''x''" None 1 ?h1 "Some 3" "''y''" 2 ?h2]
  from inst c1 have again: "child 0 ''x'' (Some 3) ?h1 = Inr (1, ?h1)" by blast
  from C4_child_caching [OF wf self, of "''x''" None 1 ?h1 "Some 5" "''y''" 2 ?h2] ne c1 c2
  have d: "(1::nat) \<noteq> 2 \<and> parent (?h2 ! 1) = Some 0 \<and> parent (?h2 ! 2) = Some 0" by blast
  from inst fresh c1
  have cr: "map_of (children (?h1 ! 0)) ''x'' = Some 1 \<and>
      maxlen (intervals (?h1 ! 1)) = (case None of None \<Rightarrow> maxlen (intervals (?h0 ! 0)) | Some m \<Rightarrow> m)"
    by blast
  then have cr': "map_of (children (?h1 ! 0)) ''x'' = Some 1 \<and> maxlen (intervals (?h1 ! 1)) = 10"
    by simp
  have fits: "maxlen (intervals (?h0 ! 0)) \<le> PY_SSIZE_T_MAX"
    by (simp add: PY_SSIZE_T_MAX_def)
  from inst fits have dflt: "\<exists>d h3. child 0 ''x'' None ?h0 = Inr (d, h3)" by blast
  from wf self c1 again ne c2 d fresh cr' fits dflt show ?thesis by (intro conjI) simp_all
qed

subsection \<open>Ancestors\<close>

lemma parents_chain: "parents n h a = Some ps \<Longrightarrow> ancestor_chain h a ps"
proof (induction n arbitrary: a ps)
  case 0
  then show ?case by simp
next
  case (Suc n)
  show ?case
  proof (cases "parent (h ! a)")
    case None
    with Suc.prems show ?thesis by simp
  next
    case (Some p)
    with Suc.prems obtain qs where qs: "parents n h p = Some qs" "ps = p # qs"
      by (auto split: option.splits)
    from Suc.IH [OF qs(1)] Some qs(2) show ?thesis by simp
  qed
qed

lemma parents_wf:
  assumes wf: "wf_heap h"
  shows "a < length h \<Longrightarrow> \<exists>ps. length ps \<le> a \<and> (\<forall>n > a. parents n h a = Some ps)"
proof (induction a rule: less_induct)
  case (less a)
  show ?case
  proof (cases "parent (h ! a)")
    case None
    have "parents n h a = Some []" if "a < n" for n
      using that None by (cases n) simp_all
    then have "length ([] :: addr list) \<le> a \<and> (\<forall>n > a. parents n h a = Some [])" by simp
    then show ?thesis by blast
  next
    case (Some p)
    from wf_heapD(4) [OF wf less.prems Some] have pa: "p < a" by simp
    with less.prems have "p < length h" by simp
    from less.IH [OF pa this] obtain qs where
      qs: "length qs \<le> p" "\<forall>n > p. parents n h p = Some qs" by blast
    have "parents n h a = Some (p # qs)" if "a < n" for n
    proof -
      from that obtain m where m: "n = Suc m" by (cases n) auto
      with that pa have "p < m" by simp
      with qs(2) have "parents m h p = Some qs" by simp
      with Some m show ?thesis by simp
    qed
    moreover from qs(1) pa have "length (p # qs) \<le> a" by simp
    ultimately show ?thesis by blast
  qed
qed

text \<open>
  Claim C9. On a well-formed heap \<open>parents\<close> returns for every StopWatch, after at most
  as many steps as its address: the result is the chain from its parent up to a
  StopWatch without parent, and is empty exactly for a StopWatch without parent; \<open>level\<close>
  is the length of that chain and \<open>full_name\<close> joins the names from the far end of the
  chain down to the StopWatch with dots. For the chain \<open>root \<rightarrow> a \<rightarrow> b\<close> built with \<open>child\<close>,
  the level of \<open>b\<close> is 2 and its full name is \<open>root.a.b\<close>.
\<close>

theorem C9_ancestry_queries:
  assumes wf: "wf_heap h" and a: "a < length h"
  shows "(\<exists>ps. (\<forall>n > a. parents n h a = Some ps \<and> level n h a = Some (length ps) \<and>
               full_name n h a =
                 Some (join ''.'' (map (\<lambda>p. name (h ! p)) (rev ps) @ [name (h ! a)]))) \<and>
            ancestor_chain h a ps \<and> (ps = [] \<longleftrightarrow> parent (h ! a) = None)) \<and>
         (\<exists>g0 g1 g2. new_StopWatch ''root'' 10 [] = Inr (0, g0) \<and>
            child 0 ''a'' None g0 = Inr (1, g1) \<and> child 1 ''b'' None g1 = Inr (2, g2) \<and>
            parents 3 g2 2 = Some [1, 0] \<and> parents 3 g2 0 = Some [] \<and>
            level 3 g2 2 = Some 2 \<and> level 3 g2 0 = Some 0 \<and>
            full_name 3 g2 2 = Some ''root.a.b'')"
proof -
  from parents_wf [OF wf a] obtain ps where ps: "\<forall>n > a. parents n h a = Some ps" by blast
  then have "parents (Suc a) h a = Some ps" by blast
  from parents_chain [OF this] have chain: "ancestor_chain h a ps" .
  have empty: "ps = [] \<longleftrightarrow> parent (h ! a) = None"
    using chain by (cases ps) simp_all
  have q: "parents n h a = Some ps \<and> level n h a = Some (length ps) \<and>
               full_name n h a =
                 Some (join ''.'' (map (\<lambda>p. name (h ! p)) (rev ps) @ [name (h ! a)]))"
    if "a < n" for n
    using ps that by (simp add: level_def full_name_def rev_map)
  have ex: "\<exists>g0 g1 g2. new_StopWatch ''root'' 10 [] = Inr (0, g0) \<and>
            child 0 ''a'' None g0 = Inr (1, g1) \<and> child 1 ''b'' None g1 = Inr (2, g2) \<and>
            parents 3 g2 2 = Some [1, 0] \<and> parents 3 g2 0 = Some [] \<and>
            level 3 g2 2 = Some 2 \<and> level 3 g2 0 = Some 0 \<and>
            full_name 3 g2 2 = Some ''root.a.b''"
    by (simp add: new_StopWatch_def child_def StopWatch_init_def BaseClock_init_def
        deque_init_def PY_SSIZE_T_MAX_def level_def full_name_def numeral_3_eq_3)
  from q have "\<forall>n > a. parents n h a = Some ps \<and> level n h a = Some (length ps) \<and>
               full_name n h a =
                 Some (join ''.'' (map (\<lambda>p. name (h ! p)) (rev ps) @ [name (h ! a)]))"
    by simp
  with chain empty have "(\<forall>n > a. parents n h a = Some ps \<and> level n h a = Some (length ps) \<and>
               full_name n h a =
                 Some (join ''.'' (map (\<lambda>p. name (h ! p)) (rev ps) @ [name (h ! a)]))) \<and>
            ancestor_chain h a ps \<and> (ps = [] \<longleftrightarrow> parent (h ! a) = None)"
    by (intro conjI)
  then have gen: "\<exists>ps. (\<forall>n > a. parents n h a = Some ps \<and> level n h a = Some (length ps) \<and>
               full_name n h a =
                 Some (join ''.'' (map (\<lambda>p. name (h ! p)) (rev ps) @ [name (h ! a)]))) \<and>
            ancestor_chain h a ps \<and> (ps = [] \<longleftrightarrow> parent (h ! a) = None)"
    by (rule exI)
  from gen ex show ?thesis by (rule conjI)
qed

theorem C9_ancestry_queries_witness:
  "wf_heap [\<lparr>intervals = \<lparr>maxlen = 10, items = []\<rparr>, name = ''root'', parent = None,
        children = [(''a'', 1)], start = None\<rparr>,
      \<lparr>intervals = \<lparr>maxlen = 10, items = []\<rparr>, name = ''a'', parent = Some 0,
        children = [(''b'', 2)], start = None\<rparr>,
      \<lparr>intervals = \<lparr>maxlen = 10, items = []\<rparr>, name = ''b'', parent = Some 1,
        children = [], start = None\<rparr>] \<and> (2::nat) < length [\<lparr>intervals = \<lparr>maxlen = 10, items = []\<rparr>, name = ''root'', parent = None,
        children = [(''a'', 1)], start = None\<rparr>,
      \<lparr>intervals = \<lparr>maxlen = 10, items = []\<rparr>, name = ''a'', parent = Some 0,
        children = [(''b'', 2)], start = None\<rparr>,
      \<lparr>intervals = \<lparr>maxlen = 10, items = []\<rparr>, name = ''b'', parent = Some 1,
        children = [], start = None\<rparr>] \<and>
   parents 3 [\<lparr>intervals = \<lparr>maxlen = 10, items = []\<rparr>, name = ''root'', parent = None,
        children = [(''a'', 1)], start = None\<rparr>,
      \<lparr>intervals = \<lparr>maxlen = 10, items = []\<rparr>, name = ''a'', parent = Some 0,
        children = [(''b'', 2)], start = None\<rparr>,
      \<lparr>intervals = \<lparr>maxlen = 10, items = []\<rparr>, name = ''b'', parent = Some 1,
        children = [], start = None\<rparr>] 2 = Some [1, 0] \<and>
   level 3 [\<lparr>intervals = \<lparr>maxlen = 10, items = []\<rparr>, name = ''root'', parent = None,
        children = [(''a'', 1)], start = None\<rparr>,
      \<lparr>intervals = \<lparr>maxlen = 10, items = []\<rparr>, name = ''a'', parent = Some 0,
        children = [(''b'', 2)], start = None\<rparr>,
      \<lparr>intervals = \<lparr>maxlen = 10, items = []\<rparr>, name = ''b'', parent = Some 1,
        children = [], start = None\<rparr>] 2 = Some 2 \<and>
   full_name 3 [\<lparr>intervals = \<lparr>maxlen = 10, items = []\<rparr>, name = ''root'', parent = None,
        children = [(''a'', 1)], start = None\<rparr>,
      \<lparr>intervals = \<lparr>maxlen = 10, items = []\<rparr>, name = ''a'', parent = Some 0,
        children = [(''b'', 2)], start = None\<rparr>,
      \<lparr>intervals = \<lparr>maxlen = 10, items = []\<rparr>, name = ''b'', parent = Some 1,
        children = [], start = None\<rparr>] 2 = Some ''root.a.b'' \<and>
   ancestor_chain [\<lparr>intervals = \<lparr>maxlen = 10, items = []\<rparr>, name = ''root'', parent = None,
        children = [(''a'', 1)], start = None\<rparr>,
      \<lparr>intervals = \<lparr>maxlen = 10, items = []\<rparr>, name = ''a'', parent = Some 0,
        children = [(''b'', 2)], start = None\<rparr>,
      \<lparr>intervals = \<lparr>maxlen = 10, items = []\<rparr>, name = ''b'', parent = Some 1,
        children = [], start = None\<rparr>] 2 [1, 0]"
proof -
  let ?g0 = "[\<lparr>intervals = \<lparr>maxlen = 10, items = []\<rparr>, name = ''root'', parent = None,
        children = [], start = None\<rparr>]"
  let ?g1 = "[\<lparr>intervals = \<lparr>maxlen = 10, items = []\<rparr>, name = ''root'', parent = None,
        children = [(''a'', 1)], start = None\<rparr>,
      \<lparr>intervals = \<lparr>maxlen = 10, items = []\<rparr>, name = ''a'', parent = Some 0,
        children = [], start = None\<rparr>]"
  let ?g2 = "[\<lparr>intervals = \<lparr>maxlen = 10, items = []\<rparr>, name = ''root'', parent = None,
        children = [(''a'', 1)], start = None\<rparr>,
      \<lparr>intervals = \<lparr>maxlen = 10, items = []\<rparr>, name = ''a'', parent = Some 0,
        children = [(''b'', 2)], start = None\<rparr>,
      \<lparr>intervals = \<lparr>maxlen = 10, items = []\<rparr>, name = ''b'', parent = Some 1,
        children = [], start = None\<rparr>]"
  have wf0: "wf_heap ?g0"
    using wf_append_root [OF wf_heap_Nil, of 10 "''root''"] by simp
  have c1: "child 0 ''a'' None ?g0 = Inr (1, ?g1)"
    by (simp add: child_def new_StopWatch_def StopWatch_init_def BaseClock_init_def
        deque_init_def PY_SSIZE_T_MAX_def)
  have wf1: "wf_heap ?g1"
    using child_result [OF wf0 _ c1] by simp
  have c2: "child 1 ''b'' None ?g1 = Inr (2, ?g2)"
    by (simp add: child_def new_StopWatch_def StopWatch_init_def BaseClock_init_def
        deque_init_def PY_SSIZE_T_MAX_def)
  have wf2: "wf_heap ?g2"
    using child_result [OF wf1 _ c2] by simp
  have a: "(2::nat) < length ?g2" by simp
  have ev: "parents 3 ?g2 2 = Some [1, 0]"
    by (simp add: numeral_3_eq_3)
  from C9_ancestry_queries [OF wf2 a] obtain ps where
    ps: "\<forall>n > 2. parents n ?g2 2 = Some ps \<and> level n ?g2 2 = Some (length ps) \<and>
               full_name n ?g2 2 =
                 Some (join ''.'' (map (\<lambda>p. name (?g2 ! p)) (rev ps) @ [name (?g2 ! 2)]))"
      and chain: "ancestor_chain ?g2 2 ps"
    by blast
  from ps have p3: "parents 3 ?g2 2 = Some ps \<and> level 3 ?g2 2 = Some (length ps) \<and>
               full_name 3 ?g2 2 =
                 Some (join ''.'' (map (\<lambda>p. name (?g2 ! p)) (rev ps) @ [name (?g2 ! 2)]))"
    by simp
  with ev have eq: "ps = [1, 0]" by simp
  from p3 have "level 3 ?g2 2 = Some 2 \<and> full_name 3 ?g2 2 = Some ''root.a.b''"
    unfolding eq by simp
  with wf2 a ev chain [unfolded eq] show ?thesis by (intro conjI) simp_all
qed

section \<open>Rendering\<close>

lemma digit_char_digit: "d < 10 \<Longrightarrow> digit_char d \<in> set ''0123456789''"
  unfolding digit_char_def by (rule nth_mem) simp

lemma digits_digit: "set (digits n) \<subseteq> set ''0123456789''"
proof (induction n rule: digits.induct)
  case (1 n)
  show ?case
  proof (cases "n < 10")
    case True
    with digit_char_digit [of n] show ?thesis by (subst digits.simps) simp
  next
    case False
    have "n mod 10 < 10" by simp
    from digit_char_digit [OF this] 1 [OF False] False show ?thesis
      by (subst digits.simps) simp
  qed
qed

lemma digits_no_point: "CHR ''.'' \<notin> set (digits n)"
  using digits_digit [of n] by auto

lemma fmt4_shape:
  "\<exists>ip fd. fmt4 x = ip @ ''.'' @ fd \<and> length fd = 4 \<and> set fd \<subseteq> set ''0123456789'' \<and>
     CHR ''.'' \<notin> set ip"
proof -
  define n where "n = nat (round_half_even (\<bar>x\<bar> * 10000))"
  define ip where "ip = (if x < 0 then ''-'' else []) @ digits (n div 10000)"
  define fd where "fd = [digit_char (n div 1000 mod 10), digit_char (n div 100 mod 10),
          digit_char (n div 10 mod 10), digit_char (n mod 10)]"
  have "fmt4 x = ip @ ''.'' @ fd"
    by (simp add: fmt4_def Let_def n_def ip_def fd_def)
  moreover have "length fd = 4" by (simp add: fd_def)
  moreover have "set fd \<subseteq> set ''0123456789''"
    using digit_char_digit [of "n div 1000 mod 10"] digit_char_digit [of "n div 100 mod 10"]
      digit_char_digit [of "n div 10 mod 10"] digit_char_digit [of "n mod 10"]
    by (simp add: fd_def)
  moreover have "CHR ''.'' \<notin> set ip"
    using digits_no_point [of "n div 10000"] by (simp add: ip_def)
  ultimately show ?thesis by blast
qed

lemma BaseClock_repr_props_empty:
  "items (intervals self) = [] \<Longrightarrow> BaseClock_repr_props self = Inr []"
  by (simp add: BaseClock_repr_props_def)

lemma BaseClock_repr_props_nonempty:
  assumes "items (intervals self) \<noteq> []"
  shows "\<exists>mn me mx. min_clock self = Inr mn \<and> mean self = Inr me \<and> max_clock self = Inr mx \<and>
     BaseClock_repr_props self =
       Inr [''intervals=['' @
              join '', '' (map fmt4 (take 5 (items (intervals self))) @
                          (if 5 < length (items (intervals self)) then [''...''] else [])) @ '']'',
            ''min='' @ fmt4 mn, ''mean='' @ fmt4 me, ''max='' @ fmt4 mx]"
proof -
  obtain mn where mn: "min_clock self = Inr mn" using min_clock_Inr by blast
  obtain me where me: "mean self = Inr me" using mean_Inr by blast
  obtain mx where mx: "max_clock self = Inr mx" using max_clock_Inr by blast
  from assms mn me mx show ?thesis
    by (simp add: BaseClock_repr_props_def MAX_REPR_INTERVALS_def)
qed

lemma BaseClock_repr_props_Inr: "\<exists>props. BaseClock_repr_props self = Inr props"
  using BaseClock_repr_props_empty [of self] BaseClock_repr_props_nonempty [of self]
  by (cases "items (intervals self) = []") auto

lemma concat_replicate_indent: "concat (replicate n ''    '') = replicate (4 * n) CHR '' ''"
proof -
  have four: "''    '' = replicate 4 CHR '' ''" by (simp add: numeral_eq_Suc)
  have "concat (replicate n (replicate 4 c)) = replicate (4 * n) c" for c :: char
    by (induction n) (simp_all add: replicate_add)
  with four show ?thesis by simp
qed

lemma collect_returns: "collect (map (\<lambda>c. Some (Inr (f c))) cs) = Some (Inr (map f cs))"
  by (induction cs) simp_all

lemma StopWatch_repr_step:
  assumes lvl: "level (Suc m) h a = Some lvl"
    and base: "BaseClock_repr_props (h ! a) = Inr base"
    and kids: "map (StopWatch_repr m h) (map snd (children (h ! a))) = map (\<lambda>r. Some (Inr r)) rs"
  shows "StopWatch_repr (Suc m) h a =
     Some (Inr ((if 0 < lvl then [CHR 0x0A] else []) @ replicate (4 * lvl) CHR '' '' @
       ''<StopWatch '' @
       join '' '' ((''name='' @ name (h ! a)) # base @
         (if children (h ! a) \<noteq> []
          then [''children=['' @ join '', '' rs @ [CHR 0x0A] @ replicate (4 * lvl) CHR '' '' @ '']'']
          else [])) @
       ''>''))"
proof -
  from kids have kids1:
    "map (StopWatch_repr m h \<circ> snd) (children (h ! a)) = map (\<lambda>r. Some (Inr r)) rs"
    by simp
  have c: "collect (map (StopWatch_repr m h \<circ> snd) (children (h ! a))) = Some (Inr rs)"
    unfolding kids1 using collect_returns [of "\<lambda>r. r" rs] by simp
  show ?thesis
    by (simp add: lvl base c StopWatch_repr_props_def concat_replicate_indent Let_def
        del: replicate.simps)
qed

lemma level_wf:
  assumes "wf_heap h" and "a < length h"
  shows "\<exists>lvl. \<forall>n > a. level n h a = Some lvl"
  using parents_wf [OF assms] by (auto simp: level_def)

lemma StopWatch_repr_returns:
  assumes wf: "wf_heap h"
  shows "a < length h \<Longrightarrow> \<exists>s. \<forall>n \<ge> 2 * length h - a. StopWatch_repr n h a = Some (Inr s)"
proof (induction "length h - a" arbitrary: a rule: less_induct)
  case less
  let ?cs = "map snd (children (h ! a))"
  have cs: "a < c \<and> c < length h" if "c \<in> set ?cs" for c
    using that wf_heapD(3) [OF wf less.prems] by auto
  have "\<forall>c \<in> set ?cs. \<exists>s. \<forall>n \<ge> 2 * length h - c. StopWatch_repr n h c = Some (Inr s)"
  proof
    fix c assume c: "c \<in> set ?cs"
    from cs [OF c] less.prems have "length h - c < length h - a" "c < length h" by linarith+
    from less.hyps [OF this] show "\<exists>s. \<forall>n \<ge> 2 * length h - c. StopWatch_repr n h c = Some (Inr s)" .
  qed
  from bchoice [OF this] obtain f where
    f: "\<forall>c \<in> set ?cs. \<forall>n \<ge> 2 * length h - c. StopWatch_repr n h c = Some (Inr (f c))"
    by blast
  from level_wf [OF wf less.prems] obtain lvl where lvl: "\<forall>n > a. level n h a = Some lvl"
    by blast
  obtain base where base: "BaseClock_repr_props (h ! a) = Inr base"
    using BaseClock_repr_props_Inr by blast
  define s where "s = (if 0 < lvl then [CHR 0x0A] else []) @ replicate (4 * lvl) CHR '' '' @
       ''<StopWatch '' @
       join '' '' ((''name='' @ name (h ! a)) # base @
         (if children (h ! a) \<noteq> []
          then [''children=['' @ join '', '' (map f ?cs) @ [CHR 0x0A] @
                replicate (4 * lvl) CHR '' '' @ '']'']
          else [])) @
       ''>''"
  have "StopWatch_repr n h a = Some (Inr s)" if n: "2 * length h - a \<le> n" for n
  proof -
    from n less.prems obtain m where m: "n = Suc m" by (cases n) auto
    from n less.prems m have am: "a < Suc m" by linarith
    have "StopWatch_repr m h c = Some (Inr (f c))" if "c \<in> set ?cs" for c
    proof -
      from cs [OF that] n m have "2 * length h - c \<le> m" by linarith
      with f that show ?thesis by blast
    qed
    then have "map (StopWatch_repr m h) ?cs = map (\<lambda>r. Some (Inr r)) (map f ?cs)"
      by simp
    from StopWatch_repr_step [OF _ base this, of lvl] lvl am show ?thesis
      unfolding m s_def by blast
  qed
  then show ?case by blast
qed

lemma level_root:
  assumes "wf_heap h" and "a < length h" and "level (Suc a) h a = Some lvl"
  shows "lvl = 0 \<longleftrightarrow> parent (h ! a) = None"
proof -
  from assms(3) obtain ps where ps: "parents (Suc a) h a = Some ps" "lvl = length ps"
    by (auto simp: level_def split: option.splits)
  from parents_chain [OF ps(1)] have "ps = [] \<longleftrightarrow> parent (h ! a) = None"
    by (cases ps) simp_all
  with ps(2) show ?thesis by simp
qed

lemma StopWatch_repr_wf:
  assumes wf: "wf_heap h" and a: "a < length h"
  shows "\<exists>lvl base rs. (\<forall>n > a. level n h a = Some lvl) \<and>
           (lvl = 0 \<longleftrightarrow> parent (h ! a) = None) \<and>
           BaseClock_repr_props (h ! a) = Inr base \<and>
           (\<forall>n \<ge> 2 * length h.
              map (StopWatch_repr n h) (map snd (children (h ! a))) = map (\<lambda>r. Some (Inr r)) rs \<and>
              StopWatch_repr n h a =
                Some (Inr ((if 0 < lvl then [CHR 0x0A] else []) @ replicate (4 * lvl) CHR '' '' @
                  ''<StopWatch '' @
                  join '' '' ((''name='' @ name (h ! a)) # base @
                    (if children (h ! a) \<noteq> []
                     then [''children=['' @ join '', '' rs @ [CHR 0x0A] @
                           replicate (4 * lvl) CHR '' '' @ '']'']
                     else [])) @
                  ''>'')))"
proof -
  let ?cs = "map snd (children (h ! a))"
  have cs: "a < c \<and> c < length h" if "c \<in> set ?cs" for c
    using that wf_heapD(3) [OF wf a] by auto
  have "\<forall>c \<in> set ?cs. \<exists>s. \<forall>n \<ge> 2 * length h - c. StopWatch_repr n h c = Some (Inr s)"
    using cs StopWatch_repr_returns [OF wf] by blast
  from bchoice [OF this] obtain f where
    f: "\<forall>c \<in> set ?cs. \<forall>n \<ge> 2 * length h - c. StopWatch_repr n h c = Some (Inr (f c))"
    by blast
  from level_wf [OF wf a] obtain lvl where lvl: "\<forall>n > a. level n h a = Some lvl"
    by blast
  then have "level (Suc a) h a = Some lvl" by simp
  from level_root [OF wf a this] have root: "lvl = 0 \<longleftrightarrow> parent (h ! a) = None" .
  obtain base where base: "BaseClock_repr_props (h ! a) = Inr base"
    using BaseClock_repr_props_Inr by blast
  have kids: "map (StopWatch_repr m h) ?cs = map (\<lambda>r. Some (Inr r)) (map f ?cs)"
    if "2 * length h - 1 \<le> m" for m
  proof -
    have "StopWatch_repr m h c = Some (Inr (f c))" if c: "c \<in> set ?cs" for c
    proof -
      from cs [OF c] \<open>2 * length h - 1 \<le> m\<close> have "2 * length h - c \<le> m" by linarith
      with f c show ?thesis by blast
    qed
    then show ?thesis by simp
  qed
  have "map (StopWatch_repr n h) ?cs = map (\<lambda>r. Some (Inr r)) (map f ?cs) \<and>
        StopWatch_repr n h a =
                Some (Inr ((if 0 < lvl then [CHR 0x0A] else []) @ replicate (4 * lvl) CHR '' '' @
                  ''<StopWatch '' @
                  join '' '' ((''name='' @ name (h ! a)) # base @
                    (if children (h ! a) \<noteq> []
                     then [''children=['' @ join '', '' (map f ?cs) @ [CHR 0x0A] @
                           replicate (4 * lvl) CHR '' '' @ '']'']
                     else [])) @
                  ''>''))"
    if n: "2 * length h \<le> n" for n
  proof -
    from n a obtain m where m: "n = Suc m" by (cases n) auto
    from n m a have am: "a < Suc m" and m1: "2 * length h - 1 \<le> m" and n1: "2 * length h - 1 \<le> n"
      by linarith+
    from lvl am have l: "level (Suc m) h a = Some lvl" by blast
    note k = kids [OF n1, unfolded m]
    note r = StopWatch_repr_step [OF l base kids [OF m1]]
    from k r show ?thesis unfolding m by (rule conjI)
  qed
  then have every: "\<forall>n \<ge> 2 * length h.
        map (StopWatch_repr n h) ?cs = map (\<lambda>r. Some (Inr r)) (map f ?cs) \<and>
        StopWatch_repr n h a =
                Some (Inr ((if 0 < lvl then [CHR 0x0A] else []) @ replicate (4 * lvl) CHR '' '' @
                  ''<StopWatch '' @
                  join '' '' ((''name='' @ name (h ! a)) # base @
                    (if children (h ! a) \<noteq> []
                     then [''children=['' @ join '', '' (map f ?cs) @ [CHR 0x0A] @
                           replicate (4 * lvl) CHR '' '' @ '']'']
                     else [])) @
                  ''>''))"
    by (intro allI impI)
  show ?thesis
    by (rule exI [of _ lvl], rule exI [of _ base], rule exI [of _ "map f ?cs"])
      (intro conjI lvl root base every)
qed

text \<open>
  Claim C7. A value is formatted with a point followed by exactly four digits. The
  properties of a history are empty when it has no samples; otherwise they are the
  \<open>intervals=[...]\<close> field, listing the first five samples at most and then \<open>...\<close> when
  there are more than five, and the fields \<open>min=\<close>, \<open>mean=\<close>, \<open>max=\<close>. The text
  of a clock without tree (\<open>BaseClock.__repr__\<close>, as a Ticker prints) is the class name
  and these properties in \<open><...>\<close>, with no newline and no indent. On a well-formed
  heap the rendering of a StopWatch returns; it is the properties of the StopWatch after
  its name and before its children, in \<open><StopWatch ...>\<close>, after an indent of four spaces
  for each ancestor, and after a newline exactly when the StopWatch has a parent.
\<close>

theorem C7_rendering_format:
  "(\<exists>ip fd. fmt4 x = ip @ ''.'' @ fd \<and> length fd = 4 \<and> set fd \<subseteq> set ''0123456789'' \<and>
      CHR ''.'' \<notin> set ip) \<and>
   (items (intervals self) = [] \<longrightarrow> BaseClock_repr_props self = Inr []) \<and>
   (items (intervals self) \<noteq> [] \<longrightarrow>
      (\<exists>mn me mx. min_clock self = Inr mn \<and> mean self = Inr me \<and> max_clock self = Inr mx \<and>
         BaseClock_repr_props self =
           Inr [''intervals=['' @
                  join '', '' (map fmt4 (take 5 (items (intervals self))) @
                     (if 5 < length (items (intervals self)) then [''...''] else [])) @ '']'',
                ''min='' @ fmt4 mn, ''mean='' @ fmt4 me, ''max='' @ fmt4 mx])) \<and>
   (wf_heap h \<and> a < length h \<longrightarrow>
      (\<exists>lvl base rs. (\<forall>n > a. level n h a = Some lvl) \<and>
           (lvl = 0 \<longleftrightarrow> parent (h ! a) = None) \<and>
           BaseClock_repr_props (h ! a) = Inr base \<and>
           (\<forall>n \<ge> 2 * length h.
              map (StopWatch_repr n h) (map snd (children (h ! a))) = map (\<lambda>r. Some (Inr r)) rs \<and>
              StopWatch_repr n h a =
                Some (Inr ((if 0 < lvl then [CHR 0x0A] else []) @ replicate (4 * lvl) CHR '' '' @
                  ''<StopWatch '' @
                  join '' '' ((''name='' @ name (h ! a)) # base @
                    (if children (h ! a) \<noteq> []
                     then [''children=['' @ join '', '' rs @ [CHR 0x0A] @
                           replicate (4 * lvl) CHR '' '' @ '']'']
                     else [])) @
                  ''>''))))) \<and>
   (items (intervals self) = [] \<longrightarrow> BaseClock_repr cls self = Inr (''<'' @ cls @ ''>'')) \<and>
   (items (intervals self) \<noteq> [] \<longrightarrow>
      (\<exists>mn me mx. min_clock self = Inr mn \<and> mean self = Inr me \<and> max_clock self = Inr mx \<and>
         BaseClock_repr cls self =
           Inr (''<'' @ cls @ '' intervals=['' @
                  join '', '' (map fmt4 (take 5 (items (intervals self))) @
                     (if 5 < length (items (intervals self)) then [''...''] else [])) @
                '']'' @ '' min='' @ fmt4 mn @ '' mean='' @ fmt4 me @ '' max='' @ fmt4 mx @
                ''>'')))"
proof (intro conjI impI)
  show "\<exists>ip fd. fmt4 x = ip @ ''.'' @ fd \<and> length fd = 4 \<and> set fd \<subseteq> set ''0123456789'' \<and>
      CHR ''.'' \<notin> set ip"
    by (rule fmt4_shape)
next
  assume "items (intervals self) = []"
  then show "BaseClock_repr_props self = Inr []" by (rule BaseClock_repr_props_empty)
next
  assume "items (intervals self) \<noteq> []"
  then show "\<exists>mn me mx. min_clock self = Inr mn \<and> mean self = Inr me \<and> max_clock self = Inr mx \<and>
         BaseClock_repr_props self =
           Inr [''intervals=['' @
                  join '', '' (map fmt4 (take 5 (items (intervals self))) @
                     (if 5 < length (items (intervals self)) then [''...''] else [])) @ '']'',
                ''min='' @ fmt4 mn, ''mean='' @ fmt4 me, ''max='' @ fmt4 mx]"
    by (rule BaseClock_repr_props_nonempty)
next
  assume "wf_heap h \<and> a < length h"
  then have "wf_heap h" "a < length h" by simp_all
  then show "\<exists>lvl base rs. (\<forall>n > a. level n h a = Some lvl) \<and>
           (lvl = 0 \<longleftrightarrow> parent (h ! a) = None) \<and>
           BaseClock_repr_props (h ! a) = Inr base \<and>
           (\<forall>n \<ge> 2 * length h.
              map (StopWatch_repr n h) (map snd (children (h ! a))) = map (\<lambda>r. Some (Inr r)) rs \<and>
              StopWatch_repr n h a =
                Some (Inr ((if 0 < lvl then [CHR 0x0A] else []) @ replicate (4 * lvl) CHR '' '' @
                  ''<StopWatch '' @
                  join '' '' ((''name='' @ name (h ! a)) # base @
                    (if children (h ! a) \<noteq> []
                     then [''children=['' @ join '', '' rs @ [CHR 0x0A] @
                           replicate (4 * lvl) CHR '' '' @ '']'']
                     else [])) @
                  ''>'')))"
    by (rule StopWatch_repr_wf)
next
  assume "items (intervals self) = []"
  then show "BaseClock_repr cls self = Inr (''<'' @ cls @ ''>'')"
    by (simp add: BaseClock_repr_def BaseClock_repr_props_empty)
next
  assume "items (intervals self) \<noteq> []"
  from BaseClock_repr_props_nonempty [OF this]
  obtain mn me mx where m: "min_clock self = Inr mn" "mean self = Inr me" "max_clock self = Inr mx"
    and p: "BaseClock_repr_props self =
       Inr [''intervals=['' @
              join '', '' (map fmt4 (take 5 (items (intervals self))) @
                          (if 5 < length (items (intervals self)) then [''...''] else [])) @ '']'',
            ''min='' @ fmt4 mn, ''mean='' @ fmt4 me, ''max='' @ fmt4 mx]"
    by blast
  have "BaseClock_repr cls self =
           Inr (''<'' @ cls @ '' intervals=['' @
                  join '', '' (map fmt4 (take 5 (items (intervals self))) @
                     (if 5 < length (items (intervals self)) then [''...''] else [])) @
                '']'' @ '' min='' @ fmt4 mn @ '' mean='' @ fmt4 me @ '' max='' @ fmt4 mx @
                ''>'')"
    by (simp add: BaseClock_repr_def p)
  with m show "\<exists>mn me mx. min_clock self = Inr mn \<and> mean self = Inr me \<and>
         max_clock self = Inr mx \<and>
         BaseClock_repr cls self =
           Inr (''<'' @ cls @ '' intervals=['' @
                  join '', '' (map fmt4 (take 5 (items (intervals self))) @
                     (if 5 < length (items (intervals self)) then [''...''] else [])) @
                '']'' @ '' min='' @ fmt4 mn @ '' mean='' @ fmt4 me @ '' max='' @ fmt4 mx @
                ''>'')"
    by blast
qed

theorem C7_rendering_format_witness:
  "(\<exists>ip fd. fmt4 (123456 / 100000) = ip @ ''.'' @ fd \<and> length fd = 4 \<and>
      set fd \<subseteq> set ''0123456789'' \<and> CHR ''.'' \<notin> set ip) \<and>
   fmt4 (123456 / 100000) = ''1.2346'' \<and>
   items (intervals \<lparr>intervals = \<lparr>maxlen = 10, items = []\<rparr>, last_tick = None\<rparr>) = [] \<and>
   BaseClock_repr_props \<lparr>intervals = \<lparr>maxlen = 10, items = []\<rparr>, last_tick = None\<rparr> = Inr [] \<and>
   items (intervals \<lparr>intervals = \<lparr>maxlen = 10, items = [1, 2, 3, 4, 5, 6]\<rparr>, last_tick = Some 9\<rparr>) \<noteq> [] \<and>
   BaseClock_repr_props \<lparr>intervals = \<lparr>maxlen = 10, items = [1, 2, 3, 4, 5, 6]\<rparr>, last_tick = Some 9\<rparr> =
     Inr [''intervals=[1.0000, 2.0000, 3.0000, 4.0000, 5.0000, ...]'',
          ''min=1.0000'', ''mean=3.5000'', ''max=6.0000''] \<and>
   BaseClock_repr ''Ticker'' \<lparr>intervals = \<lparr>maxlen = 10, items = []\<rparr>, last_tick = None\<rparr> = Inr ''<Ticker>'' \<and>
   BaseClock_repr ''Ticker'' \<lparr>intervals = \<lparr>maxlen = 10, items = [1, 2, 3, 4, 5, 6]\<rparr>, last_tick = Some 9\<rparr> =
     Inr ''<Ticker intervals=[1.0000, 2.0000, 3.0000, 4.0000, 5.0000, ...] min=1.0000 mean=3.5000 max=6.0000>'' \<and>
   wf_heap [\<lparr>intervals = \<lparr>maxlen = 10, items = []\<rparr>, name = ''root'', parent = None,
        children = [(''a'', 1)], start = None\<rparr>,
      \<lparr>intervals = \<lparr>maxlen = 10, items = []\<rparr>, name = ''a'', parent = Some 0,
        children = [(''b'', 2)], start = None\<rparr>,
      \<lparr>intervals = \<lparr>maxlen = 10, items = [2]\<rparr>, name = ''b'', parent = Some 1,
        children = [], start = None\<rparr>] \<and> (2::nat) < length [\<lparr>intervals = \<lparr>maxlen = 10, items = []\<rparr>, name = ''root'', parent = None,
        children = [(''a'', 1)], start = None\<rparr>,
      \<lparr>intervals = \<lparr>maxlen = 10, items = []\<rparr>, name = ''a'', parent = Some 0,
        children = [(''b'', 2)], start = None\<rparr>,
      \<lparr>intervals = \<lparr>maxlen = 10, items = [2]\<rparr>, name = ''b'', parent = Some 1,
        children = [], start = None\<rparr>] \<and>
   level 3 [\<lparr>intervals = \<lparr>maxlen = 10, items = []\<rparr>, name = ''root'', parent = None,
        children = [(''a'', 1)], start = None\<rparr>,
      \<lparr>intervals = \<lparr>maxlen = 10, items = []\<rparr>, name = ''a'', parent = Some 0,
        children = [(''b'', 2)], start = None\<rparr>,
      \<lparr>intervals = \<lparr>maxlen = 10, items = [2]\<rparr>, name = ''b'', parent = Some 1,
        children = [], start = None\<rparr>] 2 = Some 2 \<and>
   StopWatch_repr 6 [\<lparr>intervals = \<lparr>maxlen = 10, items = []\<rparr>, name = ''root'', parent = None,
        children = [(''a'', 1)], start = None\<rparr>,
      \<lparr>intervals = \<lparr>maxlen = 10, items = []\<rparr>, name = ''a'', parent = Some 0,
        children = [(''b'', 2)], start = None\<rparr>,
      \<lparr>intervals = \<lparr>maxlen = 10, items = [2]\<rparr>, name = ''b'', parent = Some 1,
        children = [], start = None\<rparr>] 2 =
     Some (Inr (CHR 0x0A #
       ''        <StopWatch name=b intervals=[2.0000] min=2.0000 mean=2.0000 max=2.0000>''))"
proof -
  let ?g = "[\<lparr>intervals = \<lparr>maxlen = 10, items = []\<rparr>, name = ''root'', parent = None,
        children = [(''a'', 1)], start = None\<rparr>,
      \<lparr>intervals = \<lparr>maxlen = 10, items = []\<rparr>, name = ''a'', parent = Some 0,
        children = [(''b'', 2)], start = None\<rparr>,
      \<lparr>intervals = \<lparr>maxlen = 10, items = [2]\<rparr>, name = ''b'', parent = Some 1,
        children = [], start = None\<rparr>]"
  let ?se = "\<lparr>intervals = \<lparr>maxlen = 10, items = []\<rparr>, last_tick = None\<rparr>"
  let ?sf = "\<lparr>intervals = \<lparr>maxlen = 10, items = [1, 2, 3, 4, 5, 6]\<rparr>, last_tick = Some 9\<rparr>"
  note ev = fmt4_def round_half_even_def Let_def digits.simps digit_char_def
  have wf: "wf_heap ?g"
    by (simp add: wf_heap_def numeral_3_eq_3 All_less_Suc)
  have a: "(2::nat) < length ?g" by simp
  note ie = C7_rendering_format [of "123456 / 100000" ?se ?g 2 "''Ticker''"]
  note if1 = C7_rendering_format [of "123456 / 100000" ?sf ?g 2 "''Ticker''"]
  from ie have shape: "\<exists>ip fd. fmt4 (123456 / 100000) = ip @ ''.'' @ fd \<and> length fd = 4 \<and>
      set fd \<subseteq> set ''0123456789'' \<and> CHR ''.'' \<notin> set ip"
    by (rule conjunct1)
  have val: "fmt4 (123456 / 100000) = ''1.2346''"
    by (simp add: ev)
  have ee: "items (intervals ?se) = []" by simp
  from ie [THEN conjunct2, THEN conjunct1] ee
  have pe: "BaseClock_repr_props ?se = Inr []" by blast
  have ef: "items (intervals ?sf) \<noteq> []" by simp
  from if1 [THEN conjunct2, THEN conjunct2, THEN conjunct1] ef
  obtain mn me mx where m: "min_clock ?sf = Inr mn" "mean ?sf = Inr me" "max_clock ?sf = Inr mx"
    and pq: "BaseClock_repr_props ?sf =
           Inr [''intervals=['' @
                  join '', '' (map fmt4 (take 5 (items (intervals ?sf))) @
                     (if 5 < length (items (intervals ?sf)) then [''...''] else [])) @ '']'',
                ''min='' @ fmt4 mn, ''mean='' @ fmt4 me, ''max='' @ fmt4 mx]"
    by blast
  from m have "mn = 1" "me = 7 / 2" "mx = 6"
    by (simp_all add: min_clock_def mean_def max_clock_def py_truediv_def)
  with pq have pf: "BaseClock_repr_props ?sf =
     Inr [''intervals=[1.0000, 2.0000, 3.0000, 4.0000, 5.0000, ...]'',
          ''min=1.0000'', ''mean=3.5000'', ''max=6.0000'']"
    by (simp add: ev)
  from ie [THEN conjunct2, THEN conjunct2, THEN conjunct2, THEN conjunct2, THEN conjunct1] ee
  have re: "BaseClock_repr ''Ticker'' ?se = Inr ''<Ticker>''" by simp
  from if1 [THEN conjunct2, THEN conjunct2, THEN conjunct2, THEN conjunct2, THEN conjunct2] ef
  obtain mn1 me1 mx1 where m1: "min_clock ?sf = Inr mn1" "mean ?sf = Inr me1"
      "max_clock ?sf = Inr mx1"
    and rq: "BaseClock_repr ''Ticker'' ?sf =
           Inr (''<'' @ ''Ticker'' @ '' intervals=['' @
                  join '', '' (map fmt4 (take 5 (items (intervals ?sf))) @
                     (if 5 < length (items (intervals ?sf)) then [''...''] else [])) @
                '']'' @ '' min='' @ fmt4 mn1 @ '' mean='' @ fmt4 me1 @ '' max='' @ fmt4 mx1 @
                ''>'')"
    by blast
  from m1 have "mn1 = 1" "me1 = 7 / 2" "mx1 = 6"
    by (simp_all add: min_clock_def mean_def max_clock_def py_truediv_def)
  with rq have rf: "BaseClock_repr ''Ticker'' ?sf =
     Inr ''<Ticker intervals=[1.0000, 2.0000, 3.0000, 4.0000, 5.0000, ...] min=1.0000 mean=3.5000 max=6.0000>''"
    by (simp add: ev)
  from ie [THEN conjunct2, THEN conjunct2, THEN conjunct2, THEN conjunct1] wf a
  obtain lvl base where l: "\<forall>n > 2. level n ?g 2 = Some lvl"
    and b: "BaseClock_repr_props (?g ! 2) = Inr base"
    and r: "\<forall>n \<ge> 2 * length ?g. StopWatch_repr n ?g 2 =
                Some (Inr ((if 0 < lvl then [CHR 0x0A] else []) @ replicate (4 * lvl) CHR '' '' @
                  ''<StopWatch '' @
                  join '' '' ((''name='' @ name (?g ! 2)) # base @
                    (if children (?g ! 2) \<noteq> [] then [] else [])) @
                  ''>''))"
    by auto
  from l have "level 3 ?g 2 = Some lvl" by simp
  then have lvl: "lvl = 2" by (simp add: level_def numeral_3_eq_3)
  from b have base: "base = [''intervals=[2.0000]'', ''min=2.0000'', ''mean=2.0000'', ''max=2.0000'']"
    by (simp add: BaseClock_repr_props_def MAX_REPR_INTERVALS_def min_clock_def mean_def
        max_clock_def py_truediv_def ev)
  from l lvl have l3: "level 3 ?g 2 = Some 2" by simp
  from r have "StopWatch_repr 6 ?g 2 =
                Some (Inr ((if 0 < lvl then [CHR 0x0A] else []) @ replicate (4 * lvl) CHR '' '' @
                  ''<StopWatch '' @
                  join '' '' ((''name='' @ name (?g ! 2)) # base @
                    (if children (?g ! 2) \<noteq> [] then [] else [])) @
                  ''>''))"
    by simp
  then have rendered: "StopWatch_repr 6 ?g 2 =
     Some (Inr (CHR 0x0A #
       ''        <StopWatch name=b intervals=[2.0000] min=2.0000 mean=2.0000 max=2.0000>''))"
    unfolding lvl base by (simp add: numeral_eq_Suc)
  from shape val ee pe ef pf re rf wf a l3 rendered show ?thesis by (intro conjI)
qed

end
